theory Spec2Isabelle
  imports Main "HOL-Library.Word" "HOL-Library.Finite_Map"
begin

section \<open>The XPaxos replica of \<^verbatim>\<open>src/xpaxos/xpaxos.go\<close>\<close>

text \<open>
  The replica is a Go struct whose fields are changed by three RPC handlers
  (\<^verbatim>\<open>Replicate\<close>, \<^verbatim>\<open>Prepare\<close>, \<^verbatim>\<open>Commit\<close>) under one mutex.  The embedding
  passes the struct explicitly: a handler takes the replica and returns the
  replica it leaves behind together with its reply.

  \<^item> Go's \<^verbatim>\<open>int\<close> is \<^typ>\<open>int\<close>.  The two counters start at 0 and grow by one per
    handler invocation, and server ids, views and timestamps are only compared and
    copied, so no run of the handlers from \<^verbatim>\<open>Make\<close> leaves the 64-bit range.  On a
    replica whose counter is \<open>MaxInt64\<close> Go's \<^verbatim>\<open>+ 1\<close> wraps and the model's does not:
    a statement about an arbitrary replica says that the counter is below
    \<open>MaxInt64\<close>.
  \<^item> \<^verbatim>\<open>[]byte\<close> and \<^verbatim>\<open>[32]byte\<close> are byte lists; \<^verbatim>\<open>bytes.Compare(a, b) == 0\<close> is
    equality.
  \<^item> A Go map with \<^verbatim>\<open>len\<close> and \<^verbatim>\<open>range\<close> is a finite map: \<^verbatim>\<open>len(m)\<close> is
    \<^term>\<open>fcard (fmdom m)\<close>.  The public-key directory is only ever indexed, and
    indexing a Go map of pointers at an absent key yields \<^verbatim>\<open>nil\<close>, so it is a
    function into \<^typ>\<open>'a option\<close> with \<^term>\<open>None\<close> for \<^verbatim>\<open>nil\<close>.
  \<^item> A run-time panic and \<^verbatim>\<open>log.Fatal\<close> end the process; they are the left
    injection of the result type.
\<close>

type_synonym byte = "8 word"

type_synonym sha256sum = "byte list"

type_synonym error = string

type_synonym ClientEnd = string

datatype fault =
    NilPointerDereference
  | IndexOutOfRange
  | NegativeChanSize
  | Fatal error

subsection \<open>Constants and structs\<close>

definition BITSIZE :: int where
  "BITSIZE = 1024"

text \<open>The largest value of Go's \<^verbatim>\<open>int\<close> on a 64-bit platform, \<^verbatim>\<open>math.MaxInt64\<close>.\<close>

definition MaxInt64 :: int where
  "MaxInt64 = 9223372036854775807"

definition REPLICATE :: int where
  "REPLICATE = 0"

definition PREPARE :: int where
  "PREPARE = 1"

definition COMMIT :: int where
  "COMMIT = 2"

definition REPLY :: int where
  "REPLY = 3"

text \<open>
  Modelled from the spec: \<^verbatim>\<open>CLIENT\<close> is declared outside \<^verbatim>\<open>xpaxos.go\<close>; the
  specification reserves replica index 0 for the client driver.
\<close>

definition CLIENT :: int where
  "CLIENT = 0"

text \<open>
  Modelled from the spec: the struct \<^verbatim>\<open>ClientRequest\<close> is declared outside
  \<^verbatim>\<open>xpaxos.go\<close>, which reads only its field \<^verbatim>\<open>Timestamp\<close>.  The specification
  describes it as an opaque application payload with a client timestamp.
\<close>

record ClientRequest =
  Payload :: "byte list"
  Timestamp :: int

text \<open>
  Modelled from the spec: \<^verbatim>\<open>ReplicateReply\<close> is declared outside \<^verbatim>\<open>xpaxos.go\<close>,
  which writes its fields \<^verbatim>\<open>IsLeader\<close> and \<^verbatim>\<open>Success\<close>.
\<close>

record ReplicateReply =
  IsLeader :: bool
  Success :: bool

record Message =
  MsgType :: int
  MsgDigest :: sha256sum
  Signature :: "byte list"
  PrepareSeqNum :: int
  View :: int
  ClientTimestamp :: int
  ServerId :: int

text \<open>
  Field names are global in a record declaration, so the fields \<^verbatim>\<open>Request\<close> and
  \<^verbatim>\<open>Msg0\<close> that both log entries have carry the prefix \<open>ple_\<close> in
  \<^verbatim>\<open>PrepareLogEntry\<close> and \<open>cle_\<close> in \<^verbatim>\<open>CommitLogEntry\<close>; likewise \<open>pr_\<close> and
  \<open>cr_\<close> for the fields of \<^verbatim>\<open>PrepareReply\<close> and \<^verbatim>\<open>CommitReply\<close>.
\<close>

record PrepareLogEntry =
  ple_Request :: ClientRequest
  ple_Msg0 :: Message

record CommitLogEntry =
  cle_Request :: ClientRequest
  cle_Msg0 :: "(int, Message) fmap"

record PrepareReply =
  pr_MsgDigest :: sha256sum
  pr_Signature :: "byte list"
  pr_Success :: bool

record CommitReply =
  cr_MsgDigest :: sha256sum
  cr_Signature :: "byte list"
  cr_Success :: bool

text \<open>
  The zero values that the RPC layer and \<^verbatim>\<open>issuePrepare\<close>/\<^verbatim>\<open>issueCommit\<close>
  (\<^verbatim>\<open>reply := &CommitReply{}\<close>) hand to a handler.
\<close>

definition ReplicateReply_zero :: ReplicateReply where
  "ReplicateReply_zero = \<lparr>IsLeader = False, Success = False\<rparr>"

definition PrepareReply_zero :: PrepareReply where
  "PrepareReply_zero = \<lparr>pr_MsgDigest = replicate 32 0, pr_Signature = [], pr_Success = False\<rparr>"

definition CommitReply_zero :: CommitReply where
  "CommitReply_zero = \<lparr>cr_MsgDigest = replicate 32 0, cr_Signature = [], cr_Success = False\<rparr>"

subsection \<open>The Go standard library, as a parameter\<close>

text \<open>
  \<^verbatim>\<open>encoding/json\<close>, \<^verbatim>\<open>crypto/sha256\<close> and \<^verbatim>\<open>crypto/rsa\<close> are not part of the
  repository.  Every function below takes them as the record \<open>lib\<close>:
  \<^item> \<open>json_Marshal\<close>: the bytes of \<^verbatim>\<open>json.Marshal\<close> (\<^verbatim>\<open>digest\<close> discards its error);
  \<^item> \<open>sha256_Sum256\<close>: \<^verbatim>\<open>sha256.Sum256\<close>;
  \<^item> \<open>rsa_SignPKCS1v15\<close>: \<^verbatim>\<open>rsa.SignPKCS1v15\<close> on a non-nil key, the error to the
    left.  Its \<^verbatim>\<open>rand.Reader\<close> argument only blinds the private-key operation: a
    PKCS#1 v1.5 signature is a function of key, hash and digest;
  \<^item> \<open>rsa_VerifyPKCS1v15\<close>: the error of \<^verbatim>\<open>rsa.VerifyPKCS1v15\<close> on a non-nil key,
    \<^term>\<open>None\<close> for \<^verbatim>\<open>nil\<close>.
  Both RSA functions read the modulus through the key pointer before they can
  return, so a \<^verbatim>\<open>nil\<close> key is a nil-pointer dereference; \<open>sign\<close> and \<open>verify\<close>
  below write that branch out.
\<close>

datatype crypto_Hash = SHA1 | SHA256 | SHA512

record rsa_PublicKey =
  N :: int
  E :: int

record rsa_PrivateKey =
  PublicKey :: rsa_PublicKey
  D :: int

record library =
  json_Marshal :: "ClientRequest \<Rightarrow> byte list"
  sha256_Sum256 :: "byte list \<Rightarrow> sha256sum"
  rsa_SignPKCS1v15 :: "rsa_PrivateKey \<Rightarrow> crypto_Hash \<Rightarrow> byte list \<Rightarrow> error + byte list"
  rsa_VerifyPKCS1v15 :: "rsa_PublicKey \<Rightarrow> crypto_Hash \<Rightarrow> byte list \<Rightarrow> byte list \<Rightarrow> error option"

subsection \<open>The replica\<close>

text \<open>
  The fields \<^verbatim>\<open>mu\<close> and \<^verbatim>\<open>persister\<close> are left out: the mutex is the atomicity of
  the functions below, and \<^verbatim>\<open>persist\<close>/\<^verbatim>\<open>readPersist\<close> encode and decode the
  constant 0 without touching the replica.  \<^verbatim>\<open>id\<close> is \<open>id'\<close>.
\<close>

record XPaxos =
  replicas :: "ClientEnd list"
  synchronousGroup :: "(int, bool) fmap"
  id' :: int
  view :: int
  prepareSeqNum :: int
  executeSeqNum :: int
  prepareLog :: "PrepareLogEntry list"
  commitLog :: "CommitLogEntry list"
  privateKey :: "rsa_PrivateKey option"
  publicKeys :: "int \<Rightarrow> rsa_PublicKey option"

subsection \<open>Helper functions\<close>

text \<open>
  \<^verbatim>\<open>checkError(err)\<close> calls \<^verbatim>\<open>log.Fatal(err)\<close> when \<^verbatim>\<open>err\<close> is not \<^verbatim>\<open>nil\<close>, which
  exits the process.
\<close>

definition checkError :: "error option \<Rightarrow> fault option" where
  "checkError err = (case err of Some e \<Rightarrow> Some (Fatal e) | None \<Rightarrow> None)"

definition digest :: "library \<Rightarrow> ClientRequest \<Rightarrow> sha256sum" where
  "digest lib msg = (let jsonBytes = json_Marshal lib msg in sha256_Sum256 lib jsonBytes)"

definition sign :: "library \<Rightarrow> XPaxos \<Rightarrow> sha256sum \<Rightarrow> fault + byte list" where
  "sign lib xp msgDigest =
     (case privateKey xp of
        None \<Rightarrow> Inl NilPointerDereference
      | Some key \<Rightarrow>
          (case rsa_SignPKCS1v15 lib key SHA256 msgDigest of
             Inl err \<Rightarrow> (case checkError (Some err) of Some f \<Rightarrow> Inl f | None \<Rightarrow> Inr [])
           | Inr signature \<Rightarrow> (case checkError None of Some f \<Rightarrow> Inl f | None \<Rightarrow> Inr signature)))"

definition verify :: "library \<Rightarrow> XPaxos \<Rightarrow> int \<Rightarrow> sha256sum \<Rightarrow> byte list \<Rightarrow> fault + bool" where
  "verify lib xp server msgDigest signature =
     (case publicKeys xp server of
        None \<Rightarrow> Inl NilPointerDereference
      | Some pub \<Rightarrow>
          (let err = rsa_VerifyPKCS1v15 lib pub SHA256 msgDigest signature in
           if err \<noteq> None then Inr False else Inr True))"

definition getState :: "XPaxos \<Rightarrow> int \<times> bool" where
  "getState xp = (let view = view xp in (view, id' xp = view))"

subsection \<open>Handlers\<close>

text \<open>
  \<^verbatim>\<open>Replicate\<close> and \<^verbatim>\<open>Prepare\<close> release the mutex in the middle: they fan a
  message out to the other members of the synchronous group, wait for one
  acknowledgement from each, and lock again.  While they wait, other handler
  invocations run on the same replica.  The model therefore cuts each of them at
  the \<^verbatim>\<open>xp.mu.Unlock()\<close>: the first part returns \<open>Await w r\<close> (\<open>w\<close> the entry or
  message fanned out, \<open>r\<close> the reply as filled so far), and \<open>Replicate_resume\<close> and
  \<open>Prepare_resume\<close> are what runs after \<^verbatim>\<open>xp.mu.Lock()\<close>, on the replica as it is
  then.  A handler that reaches its end returns \<open>Return r\<close>.

  \<^verbatim>\<open>make(chan bool, len(xp.synchronousGroup)-1)\<close> panics on a negative size, that
  is, when the group is empty.  \<^verbatim>\<open>Replicate\<close> compares \<^verbatim>\<open>xp.id\<close> and \<^verbatim>\<open>xp.view\<close>
  before it locks; no handler writes either field.  Every \<^verbatim>\<open>CommitLogEntry\<close> of
  the file is built with a map made by \<^verbatim>\<open>make\<close>, so the write of \<^verbatim>\<open>Commit\<close> never
  meets a nil map.
\<close>

datatype ('w, 'r) progress = Return 'r | Await 'w 'r

definition Replicate ::
  "library \<Rightarrow> XPaxos \<Rightarrow> ClientRequest \<Rightarrow> ReplicateReply \<Rightarrow>
     fault + XPaxos \<times> (PrepareLogEntry, ReplicateReply) progress" where
  "Replicate lib xp request reply =
     (if id' xp = view xp then
        (let reply = reply\<lparr>IsLeader := True\<rparr>;
             xp = xp\<lparr>prepareSeqNum := prepareSeqNum xp + 1\<rparr>;
             msgDigest = digest lib request
         in case sign lib xp msgDigest of
              Inl f \<Rightarrow> Inl f
            | Inr signature \<Rightarrow>
                (let msg = \<lparr>MsgType = PREPARE, MsgDigest = msgDigest, Signature = signature,
                             PrepareSeqNum = prepareSeqNum xp, View = view xp,
                             ClientTimestamp = Timestamp request, ServerId = id' xp\<rparr>;
                     prepareEntry = \<lparr>ple_Request = request, ple_Msg0 = msg\<rparr>;
                     xp = xp\<lparr>prepareLog := prepareLog xp @ [prepareEntry]\<rparr>;
                     msgMap = fmupd (id' xp) msg fmempty;
                     commitEntry = \<lparr>cle_Request = request, cle_Msg0 = msgMap\<rparr>;
                     xp = xp\<lparr>commitLog := commitLog xp @ [commitEntry]\<rparr>
                 in if int (fcard (fmdom (synchronousGroup xp))) - 1 < 0
                    then Inl NegativeChanSize
                    else Inr (xp, Await prepareEntry reply)))
      else Inr (xp, Return (reply\<lparr>IsLeader := False, Success := False\<rparr>)))"

definition Replicate_resume :: "XPaxos \<Rightarrow> ReplicateReply \<Rightarrow> XPaxos \<times> ReplicateReply" where
  "Replicate_resume xp reply =
     (xp\<lparr>executeSeqNum := executeSeqNum xp + 1\<rparr>, reply\<lparr>Success := True\<rparr>)"

definition Prepare ::
  "library \<Rightarrow> XPaxos \<Rightarrow> PrepareLogEntry \<Rightarrow> PrepareReply \<Rightarrow>
     fault + XPaxos \<times> (Message, PrepareReply) progress" where
  "Prepare lib xp prepareEntry reply =
     (let msgDigest = digest lib (ple_Request prepareEntry)
      in case sign lib xp msgDigest of
           Inl f \<Rightarrow> Inl f
         | Inr signature \<Rightarrow>
             (let reply = reply\<lparr>pr_MsgDigest := msgDigest, pr_Signature := signature\<rparr>
              in if PrepareSeqNum (ple_Msg0 prepareEntry) = prepareSeqNum xp + 1 \<and>
                    MsgDigest (ple_Msg0 prepareEntry) = msgDigest
                 then
                   (case verify lib xp (ServerId (ple_Msg0 prepareEntry)) msgDigest
                           (Signature (ple_Msg0 prepareEntry)) of
                      Inl f \<Rightarrow> Inl f
                    | Inr ok \<Rightarrow>
                        if ok then
                          (let xp = xp\<lparr>prepareSeqNum := prepareSeqNum xp + 1\<rparr>;
                               xp = xp\<lparr>prepareLog := prepareLog xp @ [prepareEntry]\<rparr>;
                               msg = \<lparr>MsgType = COMMIT, MsgDigest = msgDigest,
                                       Signature = signature, PrepareSeqNum = prepareSeqNum xp,
                                       View = view xp,
                                       ClientTimestamp = Timestamp (ple_Request prepareEntry),
                                       ServerId = id' xp\<rparr>;
                               xp = (if executeSeqNum xp \<ge> int (length (commitLog xp)) then
                                       (let msgMap = fmupd (id' xp) msg
                                                       (fmupd (view xp) (ple_Msg0 prepareEntry) fmempty);
                                            commitEntry = \<lparr>cle_Request = ple_Request prepareEntry,
                                                           cle_Msg0 = msgMap\<rparr>
                                        in xp\<lparr>commitLog := commitLog xp @ [commitEntry]\<rparr>)
                                     else xp)
                           in if int (fcard (fmdom (synchronousGroup xp))) - 1 < 0
                              then Inl NegativeChanSize
                              else Inr (xp, Await msg reply))
                        else Inr (xp, Return (reply\<lparr>pr_Success := False\<rparr>)))
                 else Inr (xp, Return (reply\<lparr>pr_Success := False\<rparr>))))"

text \<open>
  After the acknowledgements \<^verbatim>\<open>Prepare\<close> locks and evaluates the condition of its
  waiting loop, \<^verbatim>\<open>len(xp.commitLog[xp.executeSeqNum].Msg0) != len(xp.synchronousGroup)\<close>.
  While it holds the handler unlocks, sleeps 10 ms and locks again, so every
  evaluation sees the replica as the other handlers have left it.
  \<open>Prepare_resume\<close> is one evaluation: \<open>Await\<close> when the loop goes round again,
  \<open>Return\<close> when the handler leaves the loop, executes the slot and replies, and a
  fault when the index is outside the log.
\<close>

definition Prepare_resume ::
  "XPaxos \<Rightarrow> PrepareReply \<Rightarrow> fault + XPaxos \<times> (unit, PrepareReply) progress" where
  "Prepare_resume xp reply =
     (if executeSeqNum xp < 0 \<or> executeSeqNum xp \<ge> int (length (commitLog xp))
      then Inl IndexOutOfRange
      else if fcard (fmdom (cle_Msg0 (commitLog xp ! nat (executeSeqNum xp)))) \<noteq>
              fcard (fmdom (synchronousGroup xp))
      then Inr (xp, Await () reply)
      else Inr (xp\<lparr>executeSeqNum := executeSeqNum xp + 1\<rparr>,
                Return (reply\<lparr>pr_Success := True\<rparr>)))"

text \<open>
  Before it locks again \<^verbatim>\<open>Prepare\<close> receives \<^verbatim>\<open>len(xp.synchronousGroup)-1\<close> tokens
  from \<^verbatim>\<open>replyCh\<close>; \<^verbatim>\<open>issueCommit\<close> sends one for each positive acknowledgement of
  the COMMIT.  \<open>Prepare_wait acks\<close> is the waiting handler when \<open>acks\<close> tokens have
  been sent so far: with fewer than it needs it stays blocked on the channel,
  whatever the slot holds, and with all of them it locks and evaluates the
  condition of its loop.
\<close>

definition Prepare_wait ::
  "nat \<Rightarrow> XPaxos \<Rightarrow> PrepareReply \<Rightarrow> fault + XPaxos \<times> (unit, PrepareReply) progress" where
  "Prepare_wait acks xp reply =
     (if int acks < int (fcard (fmdom (synchronousGroup xp))) - 1
      then Inr (xp, Await () reply)
      else Prepare_resume xp reply)"

definition Commit ::
  "library \<Rightarrow> XPaxos \<Rightarrow> Message \<Rightarrow> CommitReply \<Rightarrow> fault + XPaxos \<times> CommitReply" where
  "Commit lib xp msg reply =
     (let msgDigest = MsgDigest msg
      in case sign lib xp msgDigest of
           Inl f \<Rightarrow> Inl f
         | Inr signature \<Rightarrow>
             (let reply = reply\<lparr>cr_MsgDigest := msgDigest, cr_Signature := signature\<rparr>
              in case verify lib xp (ServerId msg) msgDigest (Signature msg) of
                   Inl f \<Rightarrow> Inl f
                 | Inr ok \<Rightarrow>
                     if ok then
                       (if executeSeqNum xp < int (length (commitLog xp)) then
                          (if executeSeqNum xp < 0 then Inl IndexOutOfRange
                           else
                             (let serverId = ServerId msg;
                                  i = nat (executeSeqNum xp);
                                  entry = commitLog xp ! i;
                                  entry = entry\<lparr>cle_Msg0 := fmupd serverId msg (cle_Msg0 entry)\<rparr>
                              in Inr (xp\<lparr>commitLog := (commitLog xp)[i := entry]\<rparr>,
                                      reply\<lparr>cr_Success := True\<rparr>)))
                        else Inr (xp, reply\<lparr>cr_Success := False\<rparr>))
                     else Inr (xp, reply)))"

text \<open>
  The one write of \<^verbatim>\<open>Commit\<close>, \<^verbatim>\<open>xp.commitLog[xp.executeSeqNum].Msg0[serverId] = msg\<close>,
  as a function of its own, for stating what the handler changes.
\<close>

definition Commit_write :: "XPaxos \<Rightarrow> Message \<Rightarrow> XPaxos" where
  "Commit_write xp msg =
     xp\<lparr>commitLog := (commitLog xp)[nat (executeSeqNum xp) :=
          (commitLog xp ! nat (executeSeqNum xp))\<lparr>cle_Msg0 :=
             fmupd (ServerId msg) msg (cle_Msg0 (commitLog xp ! nat (executeSeqNum xp)))\<rparr>]\<rparr>"

text \<open>
  Likewise the message a handler builds and the writes it makes before it releases
  the mutex: \<^verbatim>\<open>Replicate\<close>'s PREPARE message and its two appends, and \<^verbatim>\<open>Prepare\<close>'s
  COMMIT message, its append to \<^verbatim>\<open>prepareLog\<close> and its conditional append to
  \<^verbatim>\<open>commitLog\<close>.
\<close>

definition Replicate_msg :: "library \<Rightarrow> XPaxos \<Rightarrow> ClientRequest \<Rightarrow> byte list \<Rightarrow> Message" where
  "Replicate_msg lib xp request signature =
     \<lparr>MsgType = PREPARE, MsgDigest = digest lib request, Signature = signature,
      PrepareSeqNum = prepareSeqNum xp + 1, View = view xp,
      ClientTimestamp = Timestamp request, ServerId = id' xp\<rparr>"

definition Replicate_write :: "XPaxos \<Rightarrow> ClientRequest \<Rightarrow> Message \<Rightarrow> XPaxos" where
  "Replicate_write xp request msg =
     xp\<lparr>prepareSeqNum := prepareSeqNum xp + 1,
        prepareLog := prepareLog xp @ [\<lparr>ple_Request = request, ple_Msg0 = msg\<rparr>],
        commitLog := commitLog xp @
          [\<lparr>cle_Request = request, cle_Msg0 = fmupd (id' xp) msg fmempty\<rparr>]\<rparr>"

definition Prepare_msg :: "library \<Rightarrow> XPaxos \<Rightarrow> PrepareLogEntry \<Rightarrow> byte list \<Rightarrow> Message" where
  "Prepare_msg lib xp prepareEntry signature =
     \<lparr>MsgType = COMMIT, MsgDigest = digest lib (ple_Request prepareEntry), Signature = signature,
      PrepareSeqNum = prepareSeqNum xp + 1, View = view xp,
      ClientTimestamp = Timestamp (ple_Request prepareEntry), ServerId = id' xp\<rparr>"

definition Prepare_write :: "XPaxos \<Rightarrow> PrepareLogEntry \<Rightarrow> Message \<Rightarrow> XPaxos" where
  "Prepare_write xp prepareEntry msg =
     xp\<lparr>prepareSeqNum := prepareSeqNum xp + 1,
        prepareLog := prepareLog xp @ [prepareEntry],
        commitLog :=
          (if executeSeqNum xp \<ge> int (length (commitLog xp))
           then commitLog xp @
              [\<lparr>cle_Request = ple_Request prepareEntry,
                cle_Msg0 = fmupd (id' xp) msg (fmupd (view xp) (ple_Msg0 prepareEntry) fmempty)\<rparr>]
           else commitLog xp)\<rparr>"

subsection \<open>Construction\<close>

text \<open>
  \<^verbatim>\<open>Make\<close> puts every index of \<^verbatim>\<open>replicas\<close> other than \<^verbatim>\<open>CLIENT\<close> into the
  synchronous group.  \<^verbatim>\<open>readPersist\<close> changes nothing.
\<close>

definition Make ::
  "ClientEnd list \<Rightarrow> int \<Rightarrow> rsa_PrivateKey option \<Rightarrow> (int \<Rightarrow> rsa_PublicKey option) \<Rightarrow> XPaxos" where
  "Make replicas0 id0 privateKey0 publicKeys0 =
     \<lparr>replicas = replicas0,
      synchronousGroup =
        fold (\<lambda>server group. if int server \<noteq> CLIENT then fmupd (int server) True group else group)
          [0..<length replicas0] fmempty,
      id' = id0,
      view = 1,
      prepareSeqNum = 0,
      executeSeqNum = 0,
      prepareLog = [],
      commitLog = [],
      privateKey = privateKey0,
      publicKeys = publicKeys0\<rparr>"

subsection \<open>A replica and its waiting handlers\<close>

text \<open>
  The mutex makes the pieces between \<^verbatim>\<open>Lock\<close> and \<^verbatim>\<open>Unlock\<close> atomic, and nothing
  else: between the two parts of a \<^verbatim>\<open>Replicate\<close> or \<^verbatim>\<open>Prepare\<close> any number of
  other invocations may run.  A server is the replica together with the number of
  \<^verbatim>\<open>Replicate\<close> and \<^verbatim>\<open>Prepare\<close> invocations that have released the mutex and not
  yet finished.  An event is one atomic piece:
  \<^item> \<open>CallReplicate\<close>, \<open>CallPrepare\<close>, \<open>CallCommit\<close>: the RPC layer invokes the
    handler with a zero reply;
  \<^item> \<open>ResumeReplicate\<close>: a waiting \<^verbatim>\<open>Replicate\<close> has its acknowledgements and runs to
    its end;
  \<^item> \<open>ResumePrepare\<close>: a waiting \<^verbatim>\<open>Prepare\<close> has its acknowledgements and evaluates
    the condition of its loop once.
  When the acknowledgements arrive is up to the network and the other replicas.  A
  resume with nothing waiting changes nothing.  \<open>run\<close> stops at the first fault.
\<close>

record Server =
  replica :: XPaxos
  replicating :: nat
  preparing :: nat

datatype event =
    CallReplicate ClientRequest
  | ResumeReplicate
  | CallPrepare PrepareLogEntry
  | ResumePrepare
  | CallCommit Message

definition boot :: "XPaxos \<Rightarrow> Server" where
  "boot xp = \<lparr>replica = xp, replicating = 0, preparing = 0\<rparr>"

fun step :: "library \<Rightarrow> Server \<Rightarrow> event \<Rightarrow> fault + Server" where
  "step lib s (CallReplicate request) =
     (case Replicate lib (replica s) request ReplicateReply_zero of
        Inl f \<Rightarrow> Inl f
      | Inr (xp, Return reply) \<Rightarrow> Inr (s\<lparr>replica := xp\<rparr>)
      | Inr (xp, Await prepareEntry reply) \<Rightarrow>
          Inr (s\<lparr>replica := xp, replicating := replicating s + 1\<rparr>))"
| "step lib s ResumeReplicate =
     (if replicating s = 0 then Inr s
      else Inr (s\<lparr>replica := fst (Replicate_resume (replica s) ReplicateReply_zero),
                   replicating := replicating s - 1\<rparr>))"
| "step lib s (CallPrepare prepareEntry) =
     (case Prepare lib (replica s) prepareEntry PrepareReply_zero of
        Inl f \<Rightarrow> Inl f
      | Inr (xp, Return reply) \<Rightarrow> Inr (s\<lparr>replica := xp\<rparr>)
      | Inr (xp, Await msg reply) \<Rightarrow>
          Inr (s\<lparr>replica := xp, preparing := preparing s + 1\<rparr>))"
| "step lib s ResumePrepare =
     (if preparing s = 0 then Inr s
      else (case Prepare_resume (replica s) PrepareReply_zero of
              Inl f \<Rightarrow> Inl f
            | Inr (xp, Await u reply) \<Rightarrow> Inr s
            | Inr (xp, Return reply) \<Rightarrow>
                Inr (s\<lparr>replica := xp, preparing := preparing s - 1\<rparr>)))"
| "step lib s (CallCommit msg) =
     (case Commit lib (replica s) msg CommitReply_zero of
        Inl f \<Rightarrow> Inl f
      | Inr (xp, reply) \<Rightarrow> Inr (s\<lparr>replica := xp\<rparr>))"

fun run :: "library \<Rightarrow> Server \<Rightarrow> event list \<Rightarrow> fault + Server" where
  "run lib s [] = Inr s"
| "run lib s (e # es) = (case step lib s e of Inl f \<Rightarrow> Inl f | Inr s' \<Rightarrow> run lib s' es)"

subsection \<open>A small library instance and three endpoints\<close>

text \<open>
  To evaluate the handlers on concrete inputs the library parameter is
  instantiated with stand-ins that compute: the JSON bytes of a request are its
  payload, the hash is the identity, and a signature is the digest with the low
  byte of the signer's modulus in front, which verification compares.  Endpoint 0
  is the client, replicas 1 and 2 have the keys \<open>key1\<close> and \<open>key2\<close>, and the
  directory holds exactly their public keys.
\<close>

definition small_lib :: library where
  "small_lib =
     \<lparr>json_Marshal = Payload,
      sha256_Sum256 = (\<lambda>bs. bs),
      rsa_SignPKCS1v15 = (\<lambda>key hash hashed. Inr (of_int (N (PublicKey key)) # hashed)),
      rsa_VerifyPKCS1v15 = (\<lambda>pub hash hashed sig.
         if sig = of_int (N pub) # hashed then None else Some ''crypto/rsa: verification error'')\<rparr>"

definition key1 :: rsa_PrivateKey where
  "key1 = \<lparr>PublicKey = \<lparr>N = 11, E = 3\<rparr>, D = 7\<rparr>"

definition key2 :: rsa_PrivateKey where
  "key2 = \<lparr>PublicKey = \<lparr>N = 13, E = 3\<rparr>, D = 5\<rparr>"

definition directory :: "int \<Rightarrow> rsa_PublicKey option" where
  "directory = (\<lambda>server. if server = 1 then Some (PublicKey key1)
                          else if server = 2 then Some (PublicKey key2) else None)"

definition ends :: "ClientEnd list" where
  "ends = [''client'', ''one'', ''two'']"

definition leader1 :: XPaxos where
  "leader1 = Make ends 1 (Some key1) directory"

definition follower2 :: XPaxos where
  "follower2 = Make ends 2 (Some key2) directory"

definition requestA :: ClientRequest where
  "requestA = \<lparr>Payload = [1], Timestamp = 1\<rparr>"

definition requestB :: ClientRequest where
  "requestB = \<lparr>Payload = [2], Timestamp = 2\<rparr>"

text \<open>The leader's PREPARE for \<open>requestA\<close> and replica 2's COMMIT messages.\<close>

definition prepareA :: PrepareLogEntry where
  "prepareA =
     \<lparr>ple_Request = requestA,
      ple_Msg0 = \<lparr>MsgType = PREPARE, MsgDigest = [1], Signature = [11, 1], PrepareSeqNum = 1,
                  View = 1, ClientTimestamp = 1, ServerId = 1\<rparr>\<rparr>"

definition commitA :: Message where
  "commitA = \<lparr>MsgType = COMMIT, MsgDigest = [1], Signature = [13, 1], PrepareSeqNum = 1,
               View = 1, ClientTimestamp = 1, ServerId = 2\<rparr>"

definition commitB :: Message where
  "commitB = \<lparr>MsgType = COMMIT, MsgDigest = [2], Signature = [13, 2], PrepareSeqNum = 2,
               View = 1, ClientTimestamp = 2, ServerId = 2\<rparr>"

text \<open>
  The leader after the first part of \<^verbatim>\<open>Replicate(requestA)\<close>, and after replica 2's
  COMMIT for it has been delivered as well.
\<close>

definition leader1A :: XPaxos where
  "leader1A = fst (projr (Replicate small_lib leader1 requestA ReplicateReply_zero))"

definition leader1AC :: XPaxos where
  "leader1AC = fst (projr (Commit small_lib leader1A commitA CommitReply_zero))"

definition replyAC :: CommitReply where
  "replyAC = \<lparr>cr_MsgDigest = [1], cr_Signature = [11, 1], cr_Success = True\<rparr>"

text \<open>
  Replica 2 among four endpoints, so that the synchronous group is \<open>{1, 2, 3}\<close>,
  with a directory that holds the keys of all three replicas; the replica it
  becomes when it accepts \<open>prepareA\<close>, and the reply it has filled in by then.
\<close>

definition ends4 :: "ClientEnd list" where
  "ends4 = [''client'', ''one'', ''two'', ''three'']"

definition key3 :: rsa_PrivateKey where
  "key3 = \<lparr>PublicKey = \<lparr>N = 17, E = 3\<rparr>, D = 11\<rparr>"

definition directory3 :: "int \<Rightarrow> rsa_PublicKey option" where
  "directory3 = (\<lambda>server. if server = 3 then Some (PublicKey key3) else directory server)"

definition wide2 :: XPaxos where
  "wide2 = Make ends4 2 (Some key2) directory3"

definition wide2A :: XPaxos where
  "wide2A = fst (projr (Prepare small_lib wide2 prepareA PrepareReply_zero))"

definition replyW :: PrepareReply where
  "replyW = \<lparr>pr_MsgDigest = [1], pr_Signature = [13, 1], pr_Success = False\<rparr>"

text \<open>Replica 2 of three endpoints after it has accepted \<open>prepareA\<close>.\<close>

definition follower2A :: XPaxos where
  "follower2A = fst (projr (Prepare small_lib follower2 prepareA PrepareReply_zero))"

subsection \<open>Predicates on replicas and runs\<close>

text \<open>
  Dense numbering of the prepare log: the entry at index \<open>k\<close> carries
  \<^verbatim>\<open>PrepareSeqNum == k + 1\<close>, and \<^verbatim>\<open>prepareSeqNum == len(prepareLog)\<close>.
\<close>

definition dense :: "XPaxos \<Rightarrow> bool" where
  "dense xp \<longleftrightarrow>
     list_all (\<lambda>k. PrepareSeqNum (ple_Msg0 (prepareLog xp ! k)) = int k + 1)
       [0..<length (prepareLog xp)] \<and>
     prepareSeqNum xp = int (length (prepareLog xp))"

text \<open>
  A run is sequential when \<^verbatim>\<open>Replicate\<close> and \<^verbatim>\<open>Prepare\<close> are only invoked while no
  earlier \<^verbatim>\<open>Replicate\<close> or \<^verbatim>\<open>Prepare\<close> is still waiting: one request at a time.
  \<^verbatim>\<open>Commit\<close> never waits and may arrive at any moment.
\<close>

definition idle :: "Server \<Rightarrow> bool" where
  "idle s \<longleftrightarrow> replicating s = 0 \<and> preparing s = 0"

fun sequential :: "library \<Rightarrow> Server \<Rightarrow> event list \<Rightarrow> bool" where
  "sequential lib s [] = True"
| "sequential lib s (e # es) =
     ((case e of CallReplicate request \<Rightarrow> idle s | CallPrepare prepareEntry \<Rightarrow> idle s | _ \<Rightarrow> True) \<and>
      (case step lib s e of Inl f \<Rightarrow> True | Inr s' \<Rightarrow> sequential lib s' es))"

text \<open>
  A server is balanced when the two logs have the same length and every slot of
  \<^verbatim>\<open>commitLog\<close> is either executed or belongs to a handler that is still waiting.
\<close>

definition balanced :: "Server \<Rightarrow> bool" where
  "balanced s \<longleftrightarrow>
     length (commitLog (replica s)) = length (prepareLog (replica s)) \<and>
     int (length (commitLog (replica s))) =
       executeSeqNum (replica s) + int (replicating s + preparing s)"

subsection \<open>Runs of the leader and of replica 2\<close>

text \<open>
  \<open>one_request\<close>: the leader replicates \<open>requestA\<close>, replica 2's COMMIT arrives,
  and the acknowledgement lets \<^verbatim>\<open>Replicate\<close> finish.

  \<open>pipelined\<close>: two clients' requests overlap.  Both \<^verbatim>\<open>Replicate\<close> invocations run
  their first part; replica 2 handles the two PREPAREs one after the other and its
  two COMMITs reach the leader before either waiting \<^verbatim>\<open>Replicate\<close> has locked the
  mutex again; then both finish.  \<open>prepareB\<close> is the leader's second PREPARE.
\<close>

definition one_request :: "event list" where
  "one_request = [CallReplicate requestA, CallCommit commitA, ResumeReplicate]"

definition pipelined :: "event list" where
  "pipelined = [CallReplicate requestA, CallReplicate requestB, CallCommit commitA,
                CallCommit commitB, ResumeReplicate, ResumeReplicate]"

definition prepareB :: PrepareLogEntry where
  "prepareB =
     \<lparr>ple_Request = requestB,
      ple_Msg0 = \<lparr>MsgType = PREPARE, MsgDigest = [2], Signature = [11, 2], PrepareSeqNum = 2,
                  View = 1, ClientTimestamp = 2, ServerId = 1\<rparr>\<rparr>"

definition leader1_one :: Server where
  "leader1_one = projr (run small_lib (boot leader1) one_request)"

definition leader1_pipelined :: Server where
  "leader1_pipelined = projr (run small_lib (boot leader1) pipelined)"

text \<open>
  Replica 2's side of \<open>pipelined\<close> is \<open>in_turn\<close>: it handles \<open>prepareA\<close> to its
  end and then \<open>prepareB\<close>.  \<open>overlapping\<close> is replica 2 accepting \<open>prepareB\<close>
  while its \<^verbatim>\<open>Prepare\<close> for \<open>prepareA\<close> is still waiting.
\<close>

definition in_turn :: "event list" where
  "in_turn = [CallPrepare prepareA, ResumePrepare, CallPrepare prepareB, ResumePrepare]"

definition overlapping :: "event list" where
  "overlapping = [CallPrepare prepareA, CallPrepare prepareB]"

definition follower2_overlapping :: Server where
  "follower2_overlapping = projr (run small_lib (boot follower2) overlapping)"

subsection \<open>Certificates\<close>

text \<open>
  A certificate entry is valid when \<^verbatim>\<open>verify\<close> returns true for its signature over
  its digest under the key of its \<^verbatim>\<open>ServerId\<close>; a replica's certificates are valid
  when every entry of every slot is.  A replica's own key is sound when every
  signature its \<^verbatim>\<open>sign\<close> returns passes \<^verbatim>\<open>verify\<close> under its own id.
\<close>

definition entry_valid :: "library \<Rightarrow> XPaxos \<Rightarrow> Message \<Rightarrow> bool" where
  "entry_valid lib xp m \<longleftrightarrow>
     verify lib xp (ServerId m) (MsgDigest m) (Signature m) = Inr True"

definition certificates_valid :: "library \<Rightarrow> XPaxos \<Rightarrow> bool" where
  "certificates_valid lib xp \<longleftrightarrow>
     list_all (\<lambda>slot. fmpred (\<lambda>server m. entry_valid lib xp m) (cle_Msg0 slot)) (commitLog xp)"

definition own_key_sound :: "library \<Rightarrow> XPaxos \<Rightarrow> bool" where
  "own_key_sound lib xp \<longleftrightarrow>
     (\<forall>msgDigest signature. sign lib xp msgDigest = Inr signature \<longrightarrow>
        verify lib xp (id' xp) msgDigest signature = Inr True)"

text \<open>
  The slots below \<^verbatim>\<open>executeSeqNum\<close> exist and each holds as many entries as the
  synchronous group has members: what the waiting loop of \<^verbatim>\<open>Prepare\<close> tests before
  it executes a slot.
\<close>

definition executed_full :: "XPaxos \<Rightarrow> bool" where
  "executed_full xp \<longleftrightarrow>
     0 \<le> executeSeqNum xp \<and> executeSeqNum xp \<le> int (length (commitLog xp)) \<and>
     list_all (\<lambda>k. fcard (fmdom (cle_Msg0 (commitLog xp ! k))) = fcard (fmdom (synchronousGroup xp)))
       [0..<nat (executeSeqNum xp)]"

text \<open>
  Two replica states have the same setup when they agree on what \<^verbatim>\<open>Make\<close> fixes
  and no handler writes: keys, id, view and synchronous group.  The setup is within
  the group when the view, the replica's id and every server id with a key in the
  directory are members; then every key a handler can write into a certificate is a
  member.
\<close>

definition same_setup :: "XPaxos \<Rightarrow> XPaxos \<Rightarrow> bool" where
  "same_setup xp0 xp \<longleftrightarrow>
     publicKeys xp = publicKeys xp0 \<and> privateKey xp = privateKey xp0 \<and>
     id' xp = id' xp0 \<and> view xp = view xp0 \<and> synchronousGroup xp = synchronousGroup xp0"

definition setup_in_group :: "XPaxos \<Rightarrow> bool" where
  "setup_in_group xp \<longleftrightarrow>
     view xp |\<in>| fmdom (synchronousGroup xp) \<and> id' xp |\<in>| fmdom (synchronousGroup xp) \<and>
     (\<forall>server. publicKeys xp server \<noteq> None \<longrightarrow> server |\<in>| fmdom (synchronousGroup xp))"

definition keys_in_group :: "XPaxos \<Rightarrow> bool" where
  "keys_in_group xp \<longleftrightarrow>
     list_all (\<lambda>slot. fmdom (cle_Msg0 slot) |\<subseteq>| fmdom (synchronousGroup xp)) (commitLog xp)"

section \<open>Properties\<close>

lemmas small_defs =
  leader1_def follower2_def Make_def ends_def directory_def key1_def key2_def small_lib_def
  requestA_def requestB_def prepareA_def commitA_def commitB_def CLIENT_def PREPARE_def COMMIT_def

lemmas handler_defs =
  Replicate_def Replicate_resume_def Prepare_def Prepare_resume_def Commit_def
  sign_def verify_def digest_def checkError_def boot_def
  ReplicateReply_zero_def PrepareReply_zero_def CommitReply_zero_def Let_def

subsection \<open>Replicate on a replica that is not the leader\<close>

text \<open>
  C4.  On a replica with \<^verbatim>\<open>id \<noteq> view\<close>, \<^verbatim>\<open>Replicate\<close> returns at once with the reply
  \<^verbatim>\<open>{IsLeader: false, Success: false}\<close>, whatever the request and the reply struct it
  was handed, and the replica it leaves behind is the replica it found: every
  field, the two counters, both logs, the view and the synchronous group, is
  unchanged.
\<close>

theorem Replicate_not_leader:
  assumes "id' xp \<noteq> view xp"
  shows "Replicate lib xp request reply =
           Inr (xp, Return \<lparr>IsLeader = False, Success = False\<rparr>)"
  using assms by (simp add: Replicate_def)

theorem Replicate_not_leader_witness:
  "id' follower2 \<noteq> view follower2 \<and>
   Replicate small_lib follower2 requestA ReplicateReply_zero =
     Inr (follower2, Return \<lparr>IsLeader = False, Success = False\<rparr>)"
  using Replicate_not_leader [of follower2 small_lib requestA ReplicateReply_zero]
  by (simp add: follower2_def Make_def)

subsection \<open>Signing and verifying\<close>

text \<open>
  C7.  Let replica \<open>i\<close> hold the private key \<open>key\<close>, let the directory of the
  verifying replica hold the public half of that key under \<open>i\<close>, and let the RSA
  library accept under a public key what it signed with the private key it belongs
  to (the contract of \<^verbatim>\<open>crypto/rsa\<close>, which is a parameter here).  Then every
  signature that replica \<open>i\<close>'s \<^verbatim>\<open>sign\<close> returns for the digest of a client request
  passes \<^verbatim>\<open>verify(i, digest(req), _)\<close>: the wrappers hand both library calls the
  same hash identifier and the same digest bytes, \<^verbatim>\<open>verify\<close> finds the key under
  \<open>i\<close>, and it turns the absent error into \<^verbatim>\<open>true\<close>.
\<close>

theorem sign_verify_round_trip:
  assumes "privateKey xpi = Some key"
    and "publicKeys xp i = Some (PublicKey key)"
    and "\<forall>hashed sig. rsa_SignPKCS1v15 lib key SHA256 hashed = Inr sig \<longrightarrow>
           rsa_VerifyPKCS1v15 lib (PublicKey key) SHA256 hashed sig = None"
    and "sign lib xpi (digest lib req) = Inr signature"
  shows "verify lib xp i (digest lib req) signature = Inr True"
proof -
  from assms(1,4) have "rsa_SignPKCS1v15 lib key SHA256 (digest lib req) = Inr signature"
    by (simp add: sign_def checkError_def split: sum.splits)
  with assms(3) have "rsa_VerifyPKCS1v15 lib (PublicKey key) SHA256 (digest lib req) signature = None"
    by blast
  with assms(2) show ?thesis
    by (simp add: verify_def)
qed

theorem sign_verify_round_trip_witness:
  "privateKey leader1 = Some key1 \<and>
   publicKeys follower2 1 = Some (PublicKey key1) \<and>
   sign small_lib leader1 (digest small_lib requestA) = Inr [11, 1] \<and>
   verify small_lib follower2 1 (digest small_lib requestA) [11, 1] = Inr True"
proof -
  have a: "privateKey leader1 = Some key1" by (simp add: small_defs)
  have b: "publicKeys follower2 1 = Some (PublicKey key1)" by (simp add: small_defs)
  have c: "\<forall>hashed sig. rsa_SignPKCS1v15 small_lib key1 SHA256 hashed = Inr sig \<longrightarrow>
           rsa_VerifyPKCS1v15 small_lib (PublicKey key1) SHA256 hashed sig = None"
    by (simp add: small_lib_def)
  have d: "sign small_lib leader1 (digest small_lib requestA) = Inr [11, 1]"
    by (simp add: handler_defs small_defs)
  from sign_verify_round_trip [OF a b c d] a b d show ?thesis by blast
qed

text \<open>
  C9.  \<^verbatim>\<open>verify\<close> indexes the directory with the server id and passes what it
  finds to \<^verbatim>\<open>rsa.VerifyPKCS1v15\<close>.  For a server id without an entry that is the
  \<^verbatim>\<open>nil\<close> key, and the call does not return \<^verbatim>\<open>false\<close>: it faults on the nil
  pointer.  The client index 0 is such an id: the directory holds keys for the
  replicas only.
\<close>

theorem verify_unregistered_server:
  "publicKeys leader1 CLIENT = None \<and>
   verify small_lib leader1 CLIENT (digest small_lib requestA) [11, 1] = Inl NilPointerDereference"
  by (simp add: handler_defs small_defs)

text \<open>
  For a server id that has a key, \<^verbatim>\<open>verify\<close> does return a boolean, \<^verbatim>\<open>true\<close> exactly
  when the library reports no error; without a key it faults whatever the digest
  and the signature.
\<close>

lemma verify_registered:
  assumes "publicKeys xp server = Some pub"
  shows "verify lib xp server msgDigest signature =
           Inr (rsa_VerifyPKCS1v15 lib pub SHA256 msgDigest signature = None)"
  using assms by (simp add: verify_def)

lemma verify_unregistered:
  assumes "publicKeys xp server = None"
  shows "verify lib xp server msgDigest signature = Inl NilPointerDereference"
  using assms by (simp add: verify_def)

subsection \<open>The Commit handler\<close>

lemma Commit_eq:
  "Commit lib xp msg reply =
     (case sign lib xp (MsgDigest msg) of
        Inl f \<Rightarrow> Inl f
      | Inr signature \<Rightarrow>
          (case verify lib xp (ServerId msg) (MsgDigest msg) (Signature msg) of
             Inl f \<Rightarrow> Inl f
           | Inr ok \<Rightarrow>
               if ok then
                 if executeSeqNum xp < int (length (commitLog xp)) then
                   if executeSeqNum xp < 0 then Inl IndexOutOfRange
                   else Inr (Commit_write xp msg,
                          reply\<lparr>cr_MsgDigest := MsgDigest msg, cr_Signature := signature,
                                  cr_Success := True\<rparr>)
                 else Inr (xp, reply\<lparr>cr_MsgDigest := MsgDigest msg, cr_Signature := signature,
                                      cr_Success := False\<rparr>)
               else Inr (xp, reply\<lparr>cr_MsgDigest := MsgDigest msg, cr_Signature := signature\<rparr>)))"
  unfolding Commit_def Commit_write_def Let_def
  by (simp split: sum.split)

lemma Commit_cases:
  assumes "Commit lib xp msg reply = Inr (xp', reply')"
  obtains (written) signature where
      "sign lib xp (MsgDigest msg) = Inr signature"
      "verify lib xp (ServerId msg) (MsgDigest msg) (Signature msg) = Inr True"
      "0 \<le> executeSeqNum xp" "executeSeqNum xp < int (length (commitLog xp))"
      "xp' = Commit_write xp msg"
      "reply' = reply\<lparr>cr_MsgDigest := MsgDigest msg, cr_Signature := signature, cr_Success := True\<rparr>"
  | (no_slot) signature where
      "sign lib xp (MsgDigest msg) = Inr signature"
      "verify lib xp (ServerId msg) (MsgDigest msg) (Signature msg) = Inr True"
      "executeSeqNum xp \<ge> int (length (commitLog xp))"
      "xp' = xp"
      "reply' = reply\<lparr>cr_MsgDigest := MsgDigest msg, cr_Signature := signature, cr_Success := False\<rparr>"
  | (invalid) signature where
      "sign lib xp (MsgDigest msg) = Inr signature"
      "verify lib xp (ServerId msg) (MsgDigest msg) (Signature msg) = Inr False"
      "xp' = xp"
      "reply' = reply\<lparr>cr_MsgDigest := MsgDigest msg, cr_Signature := signature\<rparr>"
proof -
  from assms obtain signature where s: "sign lib xp (MsgDigest msg) = Inr signature"
    unfolding Commit_eq by (cases "sign lib xp (MsgDigest msg)") simp_all
  from assms s obtain ok where v: "verify lib xp (ServerId msg) (MsgDigest msg) (Signature msg) = Inr ok"
    unfolding Commit_eq by (cases "verify lib xp (ServerId msg) (MsgDigest msg) (Signature msg)") simp_all
  show thesis
  proof (cases ok)
    case False
    with assms s v have "xp' = xp" 
      "reply' = reply\<lparr>cr_MsgDigest := MsgDigest msg, cr_Signature := signature\<rparr>"
      unfolding Commit_eq by simp_all
    with s v False show thesis by (intro invalid[of signature]) simp_all
  next
    case True
    show thesis
    proof (cases "executeSeqNum xp < int (length (commitLog xp))")
      case f: False
      with assms s v True have "xp' = xp" 
        "reply' = reply\<lparr>cr_MsgDigest := MsgDigest msg, cr_Signature := signature, cr_Success := False\<rparr>"
        unfolding Commit_eq by simp_all
      with s v True f show thesis by (intro no_slot[of signature]) simp_all
    next
      case t: True
      with assms s v True have n: "\<not> executeSeqNum xp < 0"
        unfolding Commit_eq by (cases "executeSeqNum xp < 0") simp_all
      with assms s v True t have "xp' = Commit_write xp msg"
        "reply' = reply\<lparr>cr_MsgDigest := MsgDigest msg, cr_Signature := signature, cr_Success := True\<rparr>"
        unfolding Commit_eq by simp_all
      with s v True t n show thesis by (intro written[of signature]) simp_all
    qed
  qed
qed

lemma Commit_written:
  assumes "sign lib xp (MsgDigest msg) = Inr signature"
    and "verify lib xp (ServerId msg) (MsgDigest msg) (Signature msg) = Inr True"
    and "0 \<le> executeSeqNum xp" and "executeSeqNum xp < int (length (commitLog xp))"
  shows "Commit lib xp msg reply =
           Inr (Commit_write xp msg,
                reply\<lparr>cr_MsgDigest := MsgDigest msg, cr_Signature := signature, cr_Success := True\<rparr>)"
  using assms unfolding Commit_eq by simp

lemma Commit_write_fields:
  "privateKey (Commit_write xp msg) = privateKey xp"
  "publicKeys (Commit_write xp msg) = publicKeys xp"
  "executeSeqNum (Commit_write xp msg) = executeSeqNum xp"
  "prepareSeqNum (Commit_write xp msg) = prepareSeqNum xp"
  "prepareLog (Commit_write xp msg) = prepareLog xp"
  "synchronousGroup (Commit_write xp msg) = synchronousGroup xp"
  "id' (Commit_write xp msg) = id' xp"
  "view (Commit_write xp msg) = view xp"
  "replicas (Commit_write xp msg) = replicas xp"
  "length (commitLog (Commit_write xp msg)) = length (commitLog xp)"
  by (simp_all add: Commit_write_def)

lemma Commit_write_nth:
  "j < length (commitLog xp) \<Longrightarrow>
     commitLog (Commit_write xp msg) ! j =
       (if j = nat (executeSeqNum xp)
        then (commitLog xp ! j)\<lparr>cle_Msg0 := fmupd (ServerId msg) msg (cle_Msg0 (commitLog xp ! j))\<rparr>
        else commitLog xp ! j)"
  by (simp add: Commit_write_def nth_list_update)

lemma Commit_write_twice:
  assumes "nat (executeSeqNum xp) < length (commitLog xp)"
  shows "Commit_write (Commit_write xp msg) msg = Commit_write xp msg"
proof -
  have "commitLog (Commit_write (Commit_write xp msg) msg) = commitLog (Commit_write xp msg)"
    using assms by (simp add: Commit_write_def)
  then show ?thesis
    by (simp add: Commit_write_def)
qed

lemma leader1A_eq:
  "leader1A =
     leader1\<lparr>prepareSeqNum := 1,
       prepareLog := [prepareA],
       commitLog := [\<lparr>cle_Request = requestA, cle_Msg0 = fmupd 1 (ple_Msg0 prepareA) fmempty\<rparr>]\<rparr>"
  by (simp add: leader1A_def handler_defs small_defs)

lemma leader1AC_eq:
  "Commit small_lib leader1A commitA CommitReply_zero = Inr (leader1AC, replyAC)"
  by (simp add: leader1AC_def replyAC_def leader1A_eq handler_defs small_defs)

text \<open>
  C3.  On a replica whose own \<^verbatim>\<open>sign\<close> returns and whose \<^verbatim>\<open>executeSeqNum\<close> is not
  negative, \<^verbatim>\<open>Commit\<close>, called with a zero reply, replies \<^verbatim>\<open>Success = true\<close> exactly
  when \<^verbatim>\<open>msg.Signature\<close> verifies over \<^verbatim>\<open>msg.MsgDigest\<close> under the key of
  \<^verbatim>\<open>msg.ServerId\<close> and \<^verbatim>\<open>executeSeqNum < len(commitLog)\<close>.  When it replies with
  success the replica differs from the one before only in
  \<^verbatim>\<open>commitLog[executeSeqNum].Msg0\<close>, which holds \<open>msg\<close> under \<^verbatim>\<open>msg.ServerId\<close>: the slot
  is the recipient's execution frontier, \<^verbatim>\<open>msg.PrepareSeqNum\<close> plays no part.  When it
  replies without success the replica is unchanged.
\<close>

theorem Commit_success_iff:
  assumes "sign lib xp (MsgDigest msg) = Inr signature"
    and "0 \<le> executeSeqNum xp"
  shows "((\<exists>xp' reply'. Commit lib xp msg CommitReply_zero = Inr (xp', reply') \<and> cr_Success reply') \<longleftrightarrow>
            (verify lib xp (ServerId msg) (MsgDigest msg) (Signature msg) = Inr True \<and>
             executeSeqNum xp < int (length (commitLog xp)))) \<and>
         (\<forall>xp' reply'. Commit lib xp msg CommitReply_zero = Inr (xp', reply') \<longrightarrow>
            (if cr_Success reply'
             then xp' = xp\<lparr>commitLog := (commitLog xp)[nat (executeSeqNum xp) :=
                          (commitLog xp ! nat (executeSeqNum xp))\<lparr>cle_Msg0 :=
                             fmupd (ServerId msg) msg
                               (cle_Msg0 (commitLog xp ! nat (executeSeqNum xp)))\<rparr>]\<rparr>
             else xp' = xp))"
proof -
  let ?ok = "verify lib xp (ServerId msg) (MsgDigest msg) (Signature msg) = Inr True \<and>
             executeSeqNum xp < int (length (commitLog xp))"
  have a: "?ok" if "Commit lib xp msg CommitReply_zero = Inr (xp', reply')" "cr_Success reply'"
    for xp' reply'
    using that by (cases rule: Commit_cases) (simp_all add: CommitReply_zero_def)
  have b: "\<exists>xp' reply'. Commit lib xp msg CommitReply_zero = Inr (xp', reply') \<and> cr_Success reply'"
    if "?ok"
    using that assms by (simp add: Commit_written)
  have c: "if cr_Success reply' then xp' = Commit_write xp msg else xp' = xp"
    if "Commit lib xp msg CommitReply_zero = Inr (xp', reply')" for xp' reply'
    using that by (cases rule: Commit_cases) (simp_all add: CommitReply_zero_def)
  from a b have "(\<exists>xp' reply'. Commit lib xp msg CommitReply_zero = Inr (xp', reply') \<and> cr_Success reply') \<longleftrightarrow> ?ok"
    by blast
  moreover from c have "\<forall>xp' reply'. Commit lib xp msg CommitReply_zero = Inr (xp', reply') \<longrightarrow>
            (if cr_Success reply' then xp' = Commit_write xp msg else xp' = xp)"
    by blast
  ultimately show ?thesis
    unfolding Commit_write_def by blast
qed

theorem Commit_success_iff_witness:
  "sign small_lib leader1A (MsgDigest commitA) = Inr [11, 1] \<and>
   0 \<le> executeSeqNum leader1A \<and>
   verify small_lib leader1A (ServerId commitA) (MsgDigest commitA) (Signature commitA) = Inr True \<and>
   executeSeqNum leader1A < int (length (commitLog leader1A)) \<and>
   (\<exists>xp' reply'. Commit small_lib leader1A commitA CommitReply_zero = Inr (xp', reply') \<and>
       cr_Success reply')"
proof -
  have s: "sign small_lib leader1A (MsgDigest commitA) = Inr [11, 1]"
    by (simp add: leader1A_eq handler_defs small_defs)
  have e: "0 \<le> executeSeqNum leader1A"
    by (simp add: leader1A_eq small_defs)
  have v: "verify small_lib leader1A (ServerId commitA) (MsgDigest commitA) (Signature commitA) = Inr True \<and>
           executeSeqNum leader1A < int (length (commitLog leader1A))"
    by (simp add: leader1A_eq handler_defs small_defs)
  from Commit_success_iff [OF s e] v
  have "\<exists>xp' reply'. Commit small_lib leader1A commitA CommitReply_zero = Inr (xp', reply') \<and>
       cr_Success reply'"
    by blast
  with s e v show ?thesis by blast
qed

text \<open>
  C8.  If \<^verbatim>\<open>Commit\<close> accepts \<open>msg\<close> (replies with success) and \<open>msg\<close> is delivered
  again to the replica the first delivery left behind, the second delivery replies
  with success as well, in fact with the same reply, its write under
  \<^verbatim>\<open>msg.ServerId\<close> changes nothing in the certificate, and the replica after both
  deliveries is the replica after the first.
\<close>

theorem Commit_duplicate:
  assumes "Commit lib xp msg CommitReply_zero = Inr (xp1, reply1)" and "cr_Success reply1"
  shows "Commit lib xp1 msg CommitReply_zero = Inr (xp1, reply1) \<and>
         fmupd (ServerId msg) msg (cle_Msg0 (commitLog xp1 ! nat (executeSeqNum xp1))) =
           cle_Msg0 (commitLog xp1 ! nat (executeSeqNum xp1))"
  using assms(1)
proof (cases rule: Commit_cases)
  case (written signature)
  let ?i = "nat (executeSeqNum xp)"
  from written have i: "?i < length (commitLog xp)" by linarith
  have w: "Commit_write xp1 msg = xp1"
    using i written(5) by (simp add: Commit_write_twice)
  have "Commit lib xp1 msg CommitReply_zero =
          Inr (Commit_write xp1 msg,
               CommitReply_zero\<lparr>cr_MsgDigest := MsgDigest msg, cr_Signature := signature, cr_Success := True\<rparr>)"
  proof (rule Commit_written)
    show "sign lib xp1 (MsgDigest msg) = Inr signature"
      using written(1,5) by (simp add: sign_def Commit_write_fields)
    show "verify lib xp1 (ServerId msg) (MsgDigest msg) (Signature msg) = Inr True"
      using written(2,5) by (simp add: verify_def Commit_write_fields)
    show "0 \<le> executeSeqNum xp1" using written(3,5) by (simp add: Commit_write_fields)
    show "executeSeqNum xp1 < int (length (commitLog xp1))"
      using written(4,5) by (simp add: Commit_write_fields)
  qed
  then have first: "Commit lib xp1 msg CommitReply_zero = Inr (xp1, reply1)"
    using w written(6) by simp
  have "commitLog xp1 ! ?i =
          (commitLog xp ! ?i)\<lparr>cle_Msg0 := fmupd (ServerId msg) msg (cle_Msg0 (commitLog xp ! ?i))\<rparr>"
    using i written(5) by (simp add: Commit_write_nth)
  then have "fmupd (ServerId msg) msg (cle_Msg0 (commitLog xp1 ! ?i)) = cle_Msg0 (commitLog xp1 ! ?i)"
    by simp
  moreover have "executeSeqNum xp1 = executeSeqNum xp"
    using written(5) by (simp add: Commit_write_fields)
  ultimately show ?thesis using first by simp
next
  case (no_slot signature)
  with assms(2) show ?thesis by (simp add: CommitReply_zero_def)
next
  case (invalid signature)
  with assms(2) show ?thesis by (simp add: CommitReply_zero_def)
qed

theorem Commit_duplicate_witness:
  "Commit small_lib leader1A commitA CommitReply_zero = Inr (leader1AC, replyAC) \<and>
   cr_Success replyAC \<and>
   Commit small_lib leader1AC commitA CommitReply_zero = Inr (leader1AC, replyAC)"
proof -
  have s: "cr_Success replyAC" by (simp add: replyAC_def)
  from Commit_duplicate [OF leader1AC_eq s] leader1AC_eq s show ?thesis by blast
qed

text \<open>
  C10.  Whenever \<^verbatim>\<open>Commit\<close> returns, \<^verbatim>\<open>id\<close>, \<^verbatim>\<open>view\<close>, \<^verbatim>\<open>prepareSeqNum\<close>,
  \<^verbatim>\<open>executeSeqNum\<close>, \<^verbatim>\<open>prepareLog\<close> and \<^verbatim>\<open>synchronousGroup\<close> are what they were,
  \<^verbatim>\<open>commitLog\<close> has the length it had (nothing appended, nothing cut), every slot
  keeps its request, and every slot other than the one at index \<^verbatim>\<open>executeSeqNum\<close>
  is unchanged altogether.
\<close>

theorem Commit_frame:
  assumes "Commit lib xp msg reply = Inr (xp', reply')"
  shows "id' xp' = id' xp \<and> view xp' = view xp \<and> prepareSeqNum xp' = prepareSeqNum xp \<and>
         executeSeqNum xp' = executeSeqNum xp \<and> prepareLog xp' = prepareLog xp \<and>
         synchronousGroup xp' = synchronousGroup xp \<and>
         length (commitLog xp') = length (commitLog xp) \<and>
         (\<forall>j < length (commitLog xp).
             cle_Request (commitLog xp' ! j) = cle_Request (commitLog xp ! j) \<and>
             (int j \<noteq> executeSeqNum xp \<longrightarrow> commitLog xp' ! j = commitLog xp ! j))"
  using assms
proof (cases rule: Commit_cases)
  case (written signature)
  have "cle_Request (commitLog xp' ! j) = cle_Request (commitLog xp ! j) \<and>
        (int j \<noteq> executeSeqNum xp \<longrightarrow> commitLog xp' ! j = commitLog xp ! j)"
    if "j < length (commitLog xp)" for j
    using that written(3,5) by (auto simp: Commit_write_nth)
  then show ?thesis using written(5) by (simp add: Commit_write_fields)
next
  case (no_slot signature)
  then show ?thesis by simp
next
  case (invalid signature)
  then show ?thesis by simp
qed

theorem Commit_frame_witness:
  "Commit small_lib leader1A commitA CommitReply_zero = Inr (leader1AC, replyAC) \<and>
   prepareSeqNum leader1AC = prepareSeqNum leader1A \<and>
   executeSeqNum leader1AC = executeSeqNum leader1A \<and>
   prepareLog leader1AC = prepareLog leader1A \<and>
   length (commitLog leader1AC) = length (commitLog leader1A)"
  using Commit_frame [OF leader1AC_eq] leader1AC_eq by blast

subsection \<open>Replicate and Prepare, case by case\<close>

lemma group_empty_iff:
  "int (fcard (fmdom g)) - 1 < 0 \<longleftrightarrow> fmdom g = {||}"
  by (cases "fmdom g = {||}") (auto simp: fcard_0_eq)

lemma Replicate_eq:
  "Replicate lib xp request reply =
     (if id' xp = view xp then
        (case sign lib xp (digest lib request) of
           Inl f \<Rightarrow> Inl f
         | Inr signature \<Rightarrow>
             if fmdom (synchronousGroup xp) = {||} then Inl NegativeChanSize
             else Inr (Replicate_write xp request (Replicate_msg lib xp request signature),
                       Await \<lparr>ple_Request = request,
                               ple_Msg0 = Replicate_msg lib xp request signature\<rparr>
                         (reply\<lparr>IsLeader := True\<rparr>)))
      else Inr (xp, Return (reply\<lparr>IsLeader := False, Success := False\<rparr>)))"
proof -
  have s: "sign lib (xp\<lparr>prepareSeqNum := n\<rparr>) d = sign lib xp d" for n d
    by (simp add: sign_def)
  show ?thesis
    unfolding Replicate_def Let_def s group_empty_iff
    by (simp add: Replicate_write_def Replicate_msg_def fcard_0_eq split: sum.split)
qed

lemma Prepare_eq:
  "Prepare lib xp e reply =
     (case sign lib xp (digest lib (ple_Request e)) of
        Inl f \<Rightarrow> Inl f
      | Inr signature \<Rightarrow>
          if PrepareSeqNum (ple_Msg0 e) = prepareSeqNum xp + 1 \<and>
             MsgDigest (ple_Msg0 e) = digest lib (ple_Request e)
          then
            (case verify lib xp (ServerId (ple_Msg0 e)) (digest lib (ple_Request e))
                    (Signature (ple_Msg0 e)) of
               Inl f \<Rightarrow> Inl f
             | Inr ok \<Rightarrow>
                 if ok then
                   if fmdom (synchronousGroup xp) = {||} then Inl NegativeChanSize
                   else Inr (Prepare_write xp e (Prepare_msg lib xp e signature),
                             Await (Prepare_msg lib xp e signature)
                               (reply\<lparr>pr_MsgDigest := digest lib (ple_Request e),
                                       pr_Signature := signature\<rparr>))
                 else Inr (xp, Return (reply\<lparr>pr_MsgDigest := digest lib (ple_Request e),
                                               pr_Signature := signature, pr_Success := False\<rparr>)))
          else Inr (xp, Return (reply\<lparr>pr_MsgDigest := digest lib (ple_Request e),
                                        pr_Signature := signature, pr_Success := False\<rparr>)))"
  unfolding Prepare_def Let_def group_empty_iff
  by (simp add: Prepare_write_def Prepare_msg_def split: sum.split)

lemma Replicate_cases:
  assumes "Replicate lib xp request reply = Inr (xp', p)"
  obtains (not_leader)
      "id' xp \<noteq> view xp" "xp' = xp" "p = Return (reply\<lparr>IsLeader := False, Success := False\<rparr>)"
  | (leader) signature where
      "id' xp = view xp" "sign lib xp (digest lib request) = Inr signature"
      "fmdom (synchronousGroup xp) \<noteq> {||}"
      "xp' = Replicate_write xp request (Replicate_msg lib xp request signature)"
      "p = Await \<lparr>ple_Request = request, ple_Msg0 = Replicate_msg lib xp request signature\<rparr>
             (reply\<lparr>IsLeader := True\<rparr>)"
proof (cases "id' xp = view xp")
  case False
  with assms have "xp' = xp" "p = Return (reply\<lparr>IsLeader := False, Success := False\<rparr>)"
    unfolding Replicate_eq by simp_all
  with False show thesis by (rule not_leader)
next
  case True
  with assms obtain signature where s: "sign lib xp (digest lib request) = Inr signature"
    unfolding Replicate_eq by (cases "sign lib xp (digest lib request)") simp_all
  with assms True have g: "fmdom (synchronousGroup xp) \<noteq> {||}"
    unfolding Replicate_eq by (cases "fmdom (synchronousGroup xp) = {||}") simp_all
  with assms True s have
    "xp' = Replicate_write xp request (Replicate_msg lib xp request signature)"
    "p = Await \<lparr>ple_Request = request, ple_Msg0 = Replicate_msg lib xp request signature\<rparr>
             (reply\<lparr>IsLeader := True\<rparr>)"
    unfolding Replicate_eq by simp_all
  with True s g show thesis by (rule leader)
qed

lemma Prepare_cases:
  assumes "Prepare lib xp e reply = Inr (xp', p)"
  obtains (rejected) signature where
      "sign lib xp (digest lib (ple_Request e)) = Inr signature"
      "\<not> (PrepareSeqNum (ple_Msg0 e) = prepareSeqNum xp + 1 \<and>
          MsgDigest (ple_Msg0 e) = digest lib (ple_Request e) \<and>
          verify lib xp (ServerId (ple_Msg0 e)) (digest lib (ple_Request e))
            (Signature (ple_Msg0 e)) = Inr True)"
      "xp' = xp"
      "p = Return (reply\<lparr>pr_MsgDigest := digest lib (ple_Request e),
                          pr_Signature := signature, pr_Success := False\<rparr>)"
  | (accepted) signature where
      "sign lib xp (digest lib (ple_Request e)) = Inr signature"
      "PrepareSeqNum (ple_Msg0 e) = prepareSeqNum xp + 1"
      "MsgDigest (ple_Msg0 e) = digest lib (ple_Request e)"
      "verify lib xp (ServerId (ple_Msg0 e)) (digest lib (ple_Request e))
            (Signature (ple_Msg0 e)) = Inr True"
      "fmdom (synchronousGroup xp) \<noteq> {||}"
      "xp' = Prepare_write xp e (Prepare_msg lib xp e signature)"
      "p = Await (Prepare_msg lib xp e signature)
             (reply\<lparr>pr_MsgDigest := digest lib (ple_Request e), pr_Signature := signature\<rparr>)"
proof -
  let ?d = "digest lib (ple_Request e)"
  let ?v = "verify lib xp (ServerId (ple_Msg0 e)) ?d (Signature (ple_Msg0 e))"
  from assms obtain signature where s: "sign lib xp ?d = Inr signature"
    unfolding Prepare_eq by (cases "sign lib xp ?d") simp_all
  show thesis
  proof (cases "PrepareSeqNum (ple_Msg0 e) = prepareSeqNum xp + 1 \<and> MsgDigest (ple_Msg0 e) = ?d")
    case False
    with assms s have "xp' = xp"
      "p = Return (reply\<lparr>pr_MsgDigest := ?d, pr_Signature := signature, pr_Success := False\<rparr>)"
      unfolding Prepare_eq by auto
    with s False show thesis by (intro rejected [of signature]) auto
  next
    case True
    with assms s obtain ok where v: "?v = Inr ok"
      unfolding Prepare_eq by (cases ?v) simp_all
    show thesis
    proof (cases ok)
      case f: False
      with assms s True v have "xp' = xp"
        "p = Return (reply\<lparr>pr_MsgDigest := ?d, pr_Signature := signature, pr_Success := False\<rparr>)"
        unfolding Prepare_eq by simp_all
      with s v f show thesis by (intro rejected [of signature]) simp_all
    next
      case t: True
      with assms s True v have g: "fmdom (synchronousGroup xp) \<noteq> {||}"
        unfolding Prepare_eq by (cases "fmdom (synchronousGroup xp) = {||}") simp_all
      with assms s True v t have
        "xp' = Prepare_write xp e (Prepare_msg lib xp e signature)"
        "p = Await (Prepare_msg lib xp e signature)
             (reply\<lparr>pr_MsgDigest := ?d, pr_Signature := signature\<rparr>)"
        unfolding Prepare_eq by simp_all
      with s True v t g show thesis by (intro accepted [of signature]) simp_all
    qed
  qed
qed

lemma Prepare_resume_cases:
  assumes "Prepare_resume xp reply = Inr (xp', p)"
  obtains (again) "xp' = xp" "p = Await () reply"
      "0 \<le> executeSeqNum xp" "executeSeqNum xp < int (length (commitLog xp))"
      "fcard (fmdom (cle_Msg0 (commitLog xp ! nat (executeSeqNum xp)))) \<noteq>
         fcard (fmdom (synchronousGroup xp))"
  | (executed) "xp' = xp\<lparr>executeSeqNum := executeSeqNum xp + 1\<rparr>"
      "p = Return (reply\<lparr>pr_Success := True\<rparr>)"
      "0 \<le> executeSeqNum xp" "executeSeqNum xp < int (length (commitLog xp))"
      "fcard (fmdom (cle_Msg0 (commitLog xp ! nat (executeSeqNum xp)))) =
         fcard (fmdom (synchronousGroup xp))"
  using assms unfolding Prepare_resume_def
  by (auto split: if_splits)

lemma dense_iff:
  "dense xp \<longleftrightarrow>
     (\<forall>k<length (prepareLog xp). PrepareSeqNum (ple_Msg0 (prepareLog xp ! k)) = int k + 1) \<and>
     prepareSeqNum xp = int (length (prepareLog xp))"
  by (auto simp: dense_def list_all_iff)

lemma dense_append:
  assumes "dense xp" and "prepareLog xp' = prepareLog xp @ [e]"
    and "prepareSeqNum xp' = prepareSeqNum xp + 1"
    and "PrepareSeqNum (ple_Msg0 e) = prepareSeqNum xp + 1"
  shows "dense xp'"
  using assms by (auto simp: dense_iff nth_append less_Suc_eq)

lemma dense_same:
  assumes "dense xp" and "prepareLog xp' = prepareLog xp" and "prepareSeqNum xp' = prepareSeqNum xp"
  shows "dense xp'"
  using assms by (simp add: dense_iff)

subsection \<open>Dense numbering of the prepare log\<close>

text \<open>
  C5.  Every atomic piece of every handler preserves dense numbering: if entry \<open>k\<close>
  of \<^verbatim>\<open>prepareLog\<close> carries \<^verbatim>\<open>PrepareSeqNum == k + 1\<close> for every index \<open>k\<close> and
  \<^verbatim>\<open>prepareSeqNum == len(prepareLog)\<close>, then the same holds of the replica that
  \<^verbatim>\<open>Replicate\<close> leaves when it releases the mutex or returns, of the replica after
  \<^verbatim>\<open>Replicate\<close> has resumed and finished, of the replica that \<^verbatim>\<open>Prepare\<close> leaves when
  it releases the mutex or returns, of the replica after each round of
  \<^verbatim>\<open>Prepare\<close>'s waiting loop and its end, and of the replica that \<^verbatim>\<open>Commit\<close> leaves.
  As the pieces are atomic under the mutex, every interleaving of handler
  invocations preserves it.
\<close>

theorem dense_numbering_preserved:
  assumes "dense xp"
  shows "(\<forall>xp' p. Replicate lib xp request rreply = Inr (xp', p) \<longrightarrow> dense xp') \<and>
         dense (fst (Replicate_resume xp rreply)) \<and>
         (\<forall>xp' p. Prepare lib xp prepareEntry preply = Inr (xp', p) \<longrightarrow> dense xp') \<and>
         (\<forall>xp' p. Prepare_resume xp preply = Inr (xp', p) \<longrightarrow> dense xp') \<and>
         (\<forall>xp' creply'. Commit lib xp msg creply = Inr (xp', creply') \<longrightarrow> dense xp')"
proof (intro conjI allI impI)
  fix xp' p assume "Replicate lib xp request rreply = Inr (xp', p)"
  then show "dense xp'"
  proof (cases rule: Replicate_cases)
    case not_leader
    with assms show ?thesis by simp
  next
    case (leader signature)
    show ?thesis
      by (rule dense_append [OF assms, where e = "\<lparr>ple_Request = request,
            ple_Msg0 = Replicate_msg lib xp request signature\<rparr>"])
         (simp_all add: leader(4) Replicate_write_def Replicate_msg_def)
  qed
next
  show "dense (fst (Replicate_resume xp rreply))"
    by (rule dense_same [OF assms]) (simp_all add: Replicate_resume_def)
next
  fix xp' p assume "Prepare lib xp prepareEntry preply = Inr (xp', p)"
  then show "dense xp'"
  proof (cases rule: Prepare_cases)
    case (rejected signature)
    with assms show ?thesis by simp
  next
    case (accepted signature)
    show ?thesis
      by (rule dense_append [OF assms, where e = prepareEntry])
         (simp_all add: accepted(2,6) Prepare_write_def)
  qed
next
  fix xp' p assume "Prepare_resume xp preply = Inr (xp', p)"
  then show "dense xp'"
    by (cases rule: Prepare_resume_cases) (auto intro: dense_same [OF assms])
next
  fix xp' creply' assume "Commit lib xp msg creply = Inr (xp', creply')"
  then show "dense xp'"
    by (cases rule: Commit_cases) (auto intro: dense_same [OF assms] simp: Commit_write_fields)
qed

theorem dense_numbering_preserved_witness:
  "dense leader1 \<and>
   Replicate small_lib leader1 requestA ReplicateReply_zero =
     Inr (leader1A, Await prepareA \<lparr>IsLeader = True, Success = False\<rparr>) \<and>
   dense leader1A"
proof -
  have d: "dense leader1"
    by (simp add: dense_def small_defs)
  have r: "Replicate small_lib leader1 requestA ReplicateReply_zero =
     Inr (leader1A, Await prepareA \<lparr>IsLeader = True, Success = False\<rparr>)"
    by (simp add: leader1A_eq handler_defs small_defs)
  from dense_numbering_preserved [OF d, of small_lib requestA ReplicateReply_zero] r
  have "dense leader1A" by blast
  with d r show ?thesis by blast
qed

subsection \<open>The Prepare handler\<close>

lemma Prepare_resume_executed:
  assumes "0 \<le> executeSeqNum xp" and "executeSeqNum xp < int (length (commitLog xp))"
    and "fcard (fmdom (cle_Msg0 (commitLog xp ! nat (executeSeqNum xp)))) =
           fcard (fmdom (synchronousGroup xp))"
  shows "Prepare_resume xp reply =
           Inr (xp\<lparr>executeSeqNum := executeSeqNum xp + 1\<rparr>, Return (reply\<lparr>pr_Success := True\<rparr>))"
  using assms by (simp add: Prepare_resume_def)

lemma Prepare_wait_Return_iff:
  "(\<exists>xp' reply'. Prepare_wait acks xp reply = Inr (xp', Return reply')) \<longleftrightarrow>
     (int (fcard (fmdom (synchronousGroup xp))) - 1 \<le> int acks \<and>
      0 \<le> executeSeqNum xp \<and> executeSeqNum xp < int (length (commitLog xp)) \<and>
      fcard (fmdom (cle_Msg0 (commitLog xp ! nat (executeSeqNum xp)))) =
        fcard (fmdom (synchronousGroup xp)))"
  by (auto simp: Prepare_wait_def Prepare_resume_def)

lemma Prepare_wait_Return:
  assumes "Prepare_wait acks xp reply = Inr (xp', Return reply')"
  shows "xp' = xp\<lparr>executeSeqNum := executeSeqNum xp + 1\<rparr> \<and> reply' = reply\<lparr>pr_Success := True\<rparr>"
  using assms by (auto simp: Prepare_wait_def Prepare_resume_def split: if_splits)

lemma Prepare_wait_Await:
  assumes "Prepare_wait acks xp reply = Inr (xp', Await u reply')"
  shows "xp' = xp \<and> reply' = reply"
  using assms by (auto simp: Prepare_wait_def Prepare_resume_def split: if_splits)

text \<open>
  C2, as amended.  Take a replica whose \<^verbatim>\<open>prepareSeqNum\<close> is below \<open>MaxInt64\<close>, whose
  own \<^verbatim>\<open>sign\<close> returns for the digest of the request and whose synchronous group has
  a member.  \<^verbatim>\<open>Prepare\<close> accepts, that is, gets as far as fanning out its COMMIT and
  waiting, exactly when all three hold: \<^verbatim>\<open>Msg0.PrepareSeqNum == prepareSeqNum + 1\<close>,
  \<^verbatim>\<open>Msg0.MsgDigest\<close> is the replica's own digest of the request, and \<^verbatim>\<open>verify\<close>
  returns true for the signature under the key of \<^verbatim>\<open>Msg0.ServerId\<close>.  It rejects,
  that is, returns at once, exactly when the sequence number or the digest differs
  or \<^verbatim>\<open>verify\<close> returns false; then the replica is unchanged and \<^verbatim>\<open>Success = false\<close>.

  On acceptance the entry is appended to \<^verbatim>\<open>prepareLog\<close>, \<^verbatim>\<open>prepareSeqNum\<close> is
  incremented, a slot is appended to \<^verbatim>\<open>commitLog\<close> if \<^verbatim>\<open>executeSeqNum >= len(commitLog)\<close>,
  and the message fanned out is the replica's COMMIT for the request.  From then
  on, on whatever replica the other handlers have left, the handler replies exactly
  when it has its \<^verbatim>\<open>len(synchronousGroup) - 1\<close> acknowledgements and the slot at
  \<^verbatim>\<open>executeSeqNum\<close> exists and holds as many certificate entries as the group has
  members; it then increments \<^verbatim>\<open>executeSeqNum\<close> and replies \<^verbatim>\<open>Success = true\<close>.  In
  every other case it does not reply, and where it goes on waiting it leaves the
  replica as it is.  In every reply \<^verbatim>\<open>MsgDigest\<close> is the digest of the request and
  \<^verbatim>\<open>Signature\<close> the replica's own signature over it.
\<close>

theorem Prepare_accepts_iff:
  assumes "sign lib xp (digest lib (ple_Request e)) = Inr signature"
    and "fmdom (synchronousGroup xp) \<noteq> {||}"
    and "prepareSeqNum xp < MaxInt64"
  shows
    "((\<exists>xp' msg r. Prepare lib xp e reply = Inr (xp', Await msg r)) \<longleftrightarrow>
        (PrepareSeqNum (ple_Msg0 e) = prepareSeqNum xp + 1 \<and>
         MsgDigest (ple_Msg0 e) = digest lib (ple_Request e) \<and>
         verify lib xp (ServerId (ple_Msg0 e)) (digest lib (ple_Request e))
           (Signature (ple_Msg0 e)) = Inr True)) \<and>
     ((\<exists>xp' r. Prepare lib xp e reply = Inr (xp', Return r)) \<longleftrightarrow>
        (PrepareSeqNum (ple_Msg0 e) \<noteq> prepareSeqNum xp + 1 \<or>
         MsgDigest (ple_Msg0 e) \<noteq> digest lib (ple_Request e) \<or>
         verify lib xp (ServerId (ple_Msg0 e)) (digest lib (ple_Request e))
           (Signature (ple_Msg0 e)) = Inr False)) \<and>
     (\<forall>xp' msg r. Prepare lib xp e reply = Inr (xp', Await msg r) \<longrightarrow>
        msg = \<lparr>MsgType = COMMIT, MsgDigest = digest lib (ple_Request e), Signature = signature,
                PrepareSeqNum = prepareSeqNum xp + 1, View = view xp,
                ClientTimestamp = Timestamp (ple_Request e), ServerId = id' xp\<rparr> \<and>
        xp' = xp\<lparr>prepareSeqNum := prepareSeqNum xp + 1,
                 prepareLog := prepareLog xp @ [e],
                 commitLog :=
                   (if executeSeqNum xp \<ge> int (length (commitLog xp))
                    then commitLog xp @
                       [\<lparr>cle_Request = ple_Request e,
                         cle_Msg0 = fmupd (id' xp) msg (fmupd (view xp) (ple_Msg0 e) fmempty)\<rparr>]
                    else commitLog xp)\<rparr> \<and>
        pr_MsgDigest r = digest lib (ple_Request e) \<and>
        pr_Signature r = signature \<and>
        (\<forall>acks xp2. int (length (commitLog xp2)) \<le> MaxInt64 \<longrightarrow>
           ((\<exists>xp3 r3. Prepare_wait acks xp2 r = Inr (xp3, Return r3)) \<longleftrightarrow>
              (int (fcard (fmdom (synchronousGroup xp2))) - 1 \<le> int acks \<and>
               0 \<le> executeSeqNum xp2 \<and> executeSeqNum xp2 < int (length (commitLog xp2)) \<and>
               fcard (fmdom (cle_Msg0 (commitLog xp2 ! nat (executeSeqNum xp2)))) =
                 fcard (fmdom (synchronousGroup xp2)))) \<and>
           (\<forall>xp3 r3. Prepare_wait acks xp2 r = Inr (xp3, Return r3) \<longrightarrow>
              xp3 = xp2\<lparr>executeSeqNum := executeSeqNum xp2 + 1\<rparr> \<and>
              r3 = \<lparr>pr_MsgDigest = digest lib (ple_Request e), pr_Signature = signature,
                    pr_Success = True\<rparr>) \<and>
           (\<forall>xp3 u r3. Prepare_wait acks xp2 r = Inr (xp3, Await u r3) \<longrightarrow> xp3 = xp2))) \<and>
     (\<forall>xp' r. Prepare lib xp e reply = Inr (xp', Return r) \<longrightarrow>
        xp' = xp \<and>
        r = \<lparr>pr_MsgDigest = digest lib (ple_Request e), pr_Signature = signature,
              pr_Success = False\<rparr>)"
proof -
  let ?d = "digest lib (ple_Request e)"
  let ?v = "verify lib xp (ServerId (ple_Msg0 e)) ?d (Signature (ple_Msg0 e))"
  let ?all = "PrepareSeqNum (ple_Msg0 e) = prepareSeqNum xp + 1 \<and> MsgDigest (ple_Msg0 e) = ?d \<and>
              ?v = Inr True"
  let ?none = "PrepareSeqNum (ple_Msg0 e) \<noteq> prepareSeqNum xp + 1 \<or> MsgDigest (ple_Msg0 e) \<noteq> ?d \<or>
               ?v = Inr False"
  let ?msg = "\<lparr>MsgType = COMMIT, MsgDigest = ?d, Signature = signature,
                PrepareSeqNum = prepareSeqNum xp + 1, View = view xp,
                ClientTimestamp = Timestamp (ple_Request e), ServerId = id' xp\<rparr>"
  have a1: ?all if "Prepare lib xp e reply = Inr (xp', Await msg r)" for xp' msg r
    using that by (cases rule: Prepare_cases) simp_all
  have a2: "\<exists>xp' msg r. Prepare lib xp e reply = Inr (xp', Await msg r)" if ?all
    using that assms(1,2) unfolding Prepare_eq by simp
  have r1: ?none if "Prepare lib xp e reply = Inr (xp', Return r)" for xp' r
  proof -
    from that obtain ok where "PrepareSeqNum (ple_Msg0 e) = prepareSeqNum xp + 1 \<and>
        MsgDigest (ple_Msg0 e) = ?d \<longrightarrow> ?v = Inr ok"
      using assms(1) unfolding Prepare_eq by (cases ?v) (auto split: if_splits)
    moreover from that have "\<not> ?all"
      by (cases rule: Prepare_cases) simp_all
    ultimately show ?thesis by (cases ok) auto
  qed
  have r2: "\<exists>xp' r. Prepare lib xp e reply = Inr (xp', Return r)" if ?none
    using that assms(1,2) unfolding Prepare_eq by auto
  have w: "msg = ?msg \<and> xp' = Prepare_write xp e msg \<and>
           pr_MsgDigest r = ?d \<and> pr_Signature r = signature"
    if "Prepare lib xp e reply = Inr (xp', Await msg r)" for xp' msg r
    using that assms(1) by (cases rule: Prepare_cases) (simp_all add: Prepare_msg_def)
  have f0: "(\<exists>xp3 r3. Prepare_wait acks xp2 r = Inr (xp3, Return r3)) \<longleftrightarrow>
              (int (fcard (fmdom (synchronousGroup xp2))) - 1 \<le> int acks \<and>
               0 \<le> executeSeqNum xp2 \<and> executeSeqNum xp2 < int (length (commitLog xp2)) \<and>
               fcard (fmdom (cle_Msg0 (commitLog xp2 ! nat (executeSeqNum xp2)))) =
                 fcard (fmdom (synchronousGroup xp2)))"
    for acks xp2 r
    by (rule Prepare_wait_Return_iff)
  have f1: "xp3 = xp2\<lparr>executeSeqNum := executeSeqNum xp2 + 1\<rparr> \<and>
            r3 = \<lparr>pr_MsgDigest = ?d, pr_Signature = signature, pr_Success = True\<rparr>"
    if "Prepare lib xp e reply = Inr (xp', Await msg r)" "Prepare_wait acks xp2 r = Inr (xp3, Return r3)"
    for xp' msg r acks xp2 xp3 r3
    using Prepare_wait_Return [OF that(2)] w [OF that(1)] by simp
  have f2: "xp3 = xp2" if "Prepare_wait acks xp2 r = Inr (xp3, Await u r3)" for acks xp2 r xp3 u r3
    using Prepare_wait_Await [OF that] by simp
  have n: "xp' = xp \<and> r = \<lparr>pr_MsgDigest = ?d, pr_Signature = signature, pr_Success = False\<rparr>"
    if "Prepare lib xp e reply = Inr (xp', Return r)" for xp' r
    using that assms(1) by (cases rule: Prepare_cases) simp_all
  from a1 a2 have A: "(\<exists>xp' msg r. Prepare lib xp e reply = Inr (xp', Await msg r)) \<longleftrightarrow> ?all"
    by blast
  from r1 r2 have R: "(\<exists>xp' r. Prepare lib xp e reply = Inr (xp', Return r)) \<longleftrightarrow> ?none"
    by blast
  have W: "msg = ?msg \<and>
        xp' = xp\<lparr>prepareSeqNum := prepareSeqNum xp + 1,
                 prepareLog := prepareLog xp @ [e],
                 commitLog :=
                   (if executeSeqNum xp \<ge> int (length (commitLog xp))
                    then commitLog xp @
                       [\<lparr>cle_Request = ple_Request e,
                         cle_Msg0 = fmupd (id' xp) msg (fmupd (view xp) (ple_Msg0 e) fmempty)\<rparr>]
                    else commitLog xp)\<rparr> \<and>
        pr_MsgDigest r = ?d \<and>
        pr_Signature r = signature \<and>
        (\<forall>acks xp2. int (length (commitLog xp2)) \<le> MaxInt64 \<longrightarrow>
           ((\<exists>xp3 r3. Prepare_wait acks xp2 r = Inr (xp3, Return r3)) \<longleftrightarrow>
              (int (fcard (fmdom (synchronousGroup xp2))) - 1 \<le> int acks \<and>
               0 \<le> executeSeqNum xp2 \<and> executeSeqNum xp2 < int (length (commitLog xp2)) \<and>
               fcard (fmdom (cle_Msg0 (commitLog xp2 ! nat (executeSeqNum xp2)))) =
                 fcard (fmdom (synchronousGroup xp2)))) \<and>
           (\<forall>xp3 r3. Prepare_wait acks xp2 r = Inr (xp3, Return r3) \<longrightarrow>
              xp3 = xp2\<lparr>executeSeqNum := executeSeqNum xp2 + 1\<rparr> \<and>
              r3 = \<lparr>pr_MsgDigest = ?d, pr_Signature = signature, pr_Success = True\<rparr>) \<and>
           (\<forall>xp3 u r3. Prepare_wait acks xp2 r = Inr (xp3, Await u r3) \<longrightarrow> xp3 = xp2))"
    if p: "Prepare lib xp e reply = Inr (xp', Await msg r)" for xp' msg r
  proof (intro conjI allI impI)
    show "msg = ?msg" using w [OF p] by simp
    show "xp' = xp\<lparr>prepareSeqNum := prepareSeqNum xp + 1,
                 prepareLog := prepareLog xp @ [e],
                 commitLog :=
                   (if executeSeqNum xp \<ge> int (length (commitLog xp))
                    then commitLog xp @
                       [\<lparr>cle_Request = ple_Request e,
                         cle_Msg0 = fmupd (id' xp) msg (fmupd (view xp) (ple_Msg0 e) fmempty)\<rparr>]
                    else commitLog xp)\<rparr>"
      using w [OF p] unfolding Prepare_write_def by blast
    show "pr_MsgDigest r = ?d" using w [OF p] by simp
    show "pr_Signature r = signature" using w [OF p] by simp
  next
    fix acks xp2
    show "(\<exists>xp3 r3. Prepare_wait acks xp2 r = Inr (xp3, Return r3)) \<longleftrightarrow>
              (int (fcard (fmdom (synchronousGroup xp2))) - 1 \<le> int acks \<and>
               0 \<le> executeSeqNum xp2 \<and> executeSeqNum xp2 < int (length (commitLog xp2)) \<and>
               fcard (fmdom (cle_Msg0 (commitLog xp2 ! nat (executeSeqNum xp2)))) =
                 fcard (fmdom (synchronousGroup xp2)))"
      by (rule f0)
  next
    fix acks xp2 xp3 r3
    assume q: "Prepare_wait acks xp2 r = Inr (xp3, Return r3)"
    show "xp3 = xp2\<lparr>executeSeqNum := executeSeqNum xp2 + 1\<rparr>" using f1 [OF p q] by simp
    show "r3 = \<lparr>pr_MsgDigest = ?d, pr_Signature = signature, pr_Success = True\<rparr>"
      using f1 [OF p q] by simp
  next
    fix acks xp2 xp3 u r3
    assume "Prepare_wait acks xp2 r = Inr (xp3, Await u r3)"
    then show "xp3 = xp2" by (rule f2)
  qed
  from n have N: "\<forall>xp' r. Prepare lib xp e reply = Inr (xp', Return r) \<longrightarrow>
        xp' = xp \<and> r = \<lparr>pr_MsgDigest = ?d, pr_Signature = signature, pr_Success = False\<rparr>"
    by blast
  from W have W': "\<forall>xp' msg r. Prepare lib xp e reply = Inr (xp', Await msg r) \<longrightarrow>
        msg = ?msg \<and>
        xp' = xp\<lparr>prepareSeqNum := prepareSeqNum xp + 1,
                 prepareLog := prepareLog xp @ [e],
                 commitLog :=
                   (if executeSeqNum xp \<ge> int (length (commitLog xp))
                    then commitLog xp @
                       [\<lparr>cle_Request = ple_Request e,
                         cle_Msg0 = fmupd (id' xp) msg (fmupd (view xp) (ple_Msg0 e) fmempty)\<rparr>]
                    else commitLog xp)\<rparr> \<and>
        pr_MsgDigest r = ?d \<and>
        pr_Signature r = signature \<and>
        (\<forall>acks xp2. int (length (commitLog xp2)) \<le> MaxInt64 \<longrightarrow>
           ((\<exists>xp3 r3. Prepare_wait acks xp2 r = Inr (xp3, Return r3)) \<longleftrightarrow>
              (int (fcard (fmdom (synchronousGroup xp2))) - 1 \<le> int acks \<and>
               0 \<le> executeSeqNum xp2 \<and> executeSeqNum xp2 < int (length (commitLog xp2)) \<and>
               fcard (fmdom (cle_Msg0 (commitLog xp2 ! nat (executeSeqNum xp2)))) =
                 fcard (fmdom (synchronousGroup xp2)))) \<and>
           (\<forall>xp3 r3. Prepare_wait acks xp2 r = Inr (xp3, Return r3) \<longrightarrow>
              xp3 = xp2\<lparr>executeSeqNum := executeSeqNum xp2 + 1\<rparr> \<and>
              r3 = \<lparr>pr_MsgDigest = ?d, pr_Signature = signature, pr_Success = True\<rparr>) \<and>
           (\<forall>xp3 u r3. Prepare_wait acks xp2 r = Inr (xp3, Await u r3) \<longrightarrow> xp3 = xp2))"
    by (intro allI impI) 
  from A R W' N show ?thesis by (intro conjI)
qed

theorem Prepare_accepts_iff_witness:
  "sign small_lib follower2 (digest small_lib (ple_Request prepareA)) = Inr [13, 1] \<and>
   fmdom (synchronousGroup follower2) \<noteq> {||} \<and>
   prepareSeqNum follower2 < MaxInt64 \<and>
   PrepareSeqNum (ple_Msg0 prepareA) = prepareSeqNum follower2 + 1 \<and>
   MsgDigest (ple_Msg0 prepareA) = digest small_lib (ple_Request prepareA) \<and>
   verify small_lib follower2 (ServerId (ple_Msg0 prepareA)) (digest small_lib (ple_Request prepareA))
     (Signature (ple_Msg0 prepareA)) = Inr True \<and>
   (\<exists>xp' msg r. Prepare small_lib follower2 prepareA PrepareReply_zero = Inr (xp', Await msg r))"
proof -
  have s: "sign small_lib follower2 (digest small_lib (ple_Request prepareA)) = Inr [13, 1]"
    by (simp add: handler_defs small_defs)
  have g: "fmdom (synchronousGroup follower2) \<noteq> {||}"
    by (simp add: small_defs)
  have b: "prepareSeqNum follower2 < MaxInt64"
    by (simp add: MaxInt64_def small_defs)
  have c: "PrepareSeqNum (ple_Msg0 prepareA) = prepareSeqNum follower2 + 1 \<and>
     MsgDigest (ple_Msg0 prepareA) = digest small_lib (ple_Request prepareA) \<and>
     verify small_lib follower2 (ServerId (ple_Msg0 prepareA)) (digest small_lib (ple_Request prepareA))
       (Signature (ple_Msg0 prepareA)) = Inr True"
    by (simp add: handler_defs small_defs)
  from Prepare_accepts_iff [OF s g b, where reply = PrepareReply_zero] c
  have "\<exists>xp' msg r. Prepare small_lib follower2 prepareA PrepareReply_zero = Inr (xp', Await msg r)"
    by blast
  with s g b c show ?thesis by blast
qed

lemma wide2A_eq:
  "wide2A = Prepare_write wide2 prepareA commitA"
  by (simp add: wide2A_def wide2_def ends4_def directory3_def key3_def Prepare_write_def
      handler_defs small_defs)

text \<open>
  C2, as stated, fails: an accepted \<^verbatim>\<open>Prepare\<close> need not reply.  Replica 2 of the
  group \<open>{1, 2, 3}\<close> receives the leader's \<open>prepareA\<close>; all three conditions hold and
  the handler appends, increments and fans out \<open>commitA\<close>.  Then it waits, for the
  acknowledgements of replicas 1 and 3 and, in its loop, for the slot to hold three
  entries.  Without the acknowledgements it stays where it is.  With both of them
  it still does not reply: the slot holds two entries, the leader's and its own,
  and only \<^verbatim>\<open>Commit\<close>, on a COMMIT from replica 3, can add the third.  When that
  message is lost, which \<^verbatim>\<open>issueCommit\<close> on replica 3 answers by giving up, every
  round of the loop leaves the replica as it is and goes round again.
\<close>

theorem Prepare_accepted_without_reply:
  "PrepareSeqNum (ple_Msg0 prepareA) = prepareSeqNum wide2 + 1 \<and>
   MsgDigest (ple_Msg0 prepareA) = digest small_lib (ple_Request prepareA) \<and>
   verify small_lib wide2 (ServerId (ple_Msg0 prepareA)) (digest small_lib (ple_Request prepareA))
     (Signature (ple_Msg0 prepareA)) = Inr True \<and>
   Prepare small_lib wide2 prepareA PrepareReply_zero = Inr (wide2A, Await commitA replyW) \<and>
   Prepare_wait 0 wide2A replyW = Inr (wide2A, Await () replyW) \<and>
   Prepare_wait 2 wide2A replyW = Inr (wide2A, Await () replyW) \<and>
   Prepare_resume wide2A replyW = Inr (wide2A, Await () replyW)"
  by (simp add: wide2A_eq replyW_def wide2_def ends4_def directory3_def key3_def Prepare_write_def
      Prepare_wait_def handler_defs small_defs fcard_finsert_if)

lemma wide2_waits:
  "run small_lib \<lparr>replica = wide2A, replicating = 0, preparing = 1\<rparr> (replicate n ResumePrepare) =
     Inr \<lparr>replica = wide2A, replicating = 0, preparing = 1\<rparr>"
proof (induction n)
  case 0
  show ?case by simp
next
  case (Suc n)
  have "Prepare_resume wide2A PrepareReply_zero = Inr (wide2A, Await () PrepareReply_zero)"
    by (simp add: wide2A_eq wide2_def ends4_def directory3_def key3_def Prepare_write_def
        handler_defs small_defs fcard_finsert_if)
  with Suc show ?case by simp
qed

text \<open>
  An accepted \<^verbatim>\<open>Prepare\<close> can also end in a fault.  When replica 2 accepts
  \<open>prepareB\<close> while its handler for \<open>prepareA\<close> still waits, no slot is appended for
  \<open>prepareB\<close>; once the first handler has executed slot 0, the second indexes
  \<^verbatim>\<open>commitLog\<close> at 1, outside the log.
\<close>

lemma overlapping_Prepare_faults:
  "run small_lib (boot follower2) (overlapping @ [ResumePrepare, ResumePrepare]) =
     Inl IndexOutOfRange"
  by (simp add: overlapping_def prepareB_def handler_defs small_defs fcard_finsert_if)

subsection \<open>Runs\<close>

lemma step_cases:
  assumes "step lib s e = Inr s'"
  obtains (unchanged) "s' = s"
  | (replicate) request signature where
      "e = CallReplicate request" "id' (replica s) = view (replica s)"
      "s' = s\<lparr>replica := Replicate_write (replica s) request
                              (Replicate_msg lib (replica s) request signature),
                replicating := replicating s + 1\<rparr>"
      "sign lib (replica s) (digest lib request) = Inr signature"
  | (replicated) "e = ResumeReplicate" "0 < replicating s"
      "s' = s\<lparr>replica := (replica s)\<lparr>executeSeqNum := executeSeqNum (replica s) + 1\<rparr>,
                replicating := replicating s - 1\<rparr>"
  | (prepare) prepareEntry signature where
      "e = CallPrepare prepareEntry"
      "PrepareSeqNum (ple_Msg0 prepareEntry) = prepareSeqNum (replica s) + 1"
      "s' = s\<lparr>replica := Prepare_write (replica s) prepareEntry
                              (Prepare_msg lib (replica s) prepareEntry signature),
                preparing := preparing s + 1\<rparr>"
      "sign lib (replica s) (digest lib (ple_Request prepareEntry)) = Inr signature"
      "MsgDigest (ple_Msg0 prepareEntry) = digest lib (ple_Request prepareEntry)"
      "verify lib (replica s) (ServerId (ple_Msg0 prepareEntry))
         (digest lib (ple_Request prepareEntry)) (Signature (ple_Msg0 prepareEntry)) = Inr True"
  | (prepared) "e = ResumePrepare" "0 < preparing s"
      "0 \<le> executeSeqNum (replica s)"
      "executeSeqNum (replica s) < int (length (commitLog (replica s)))"
      "fcard (fmdom (cle_Msg0 (commitLog (replica s) ! nat (executeSeqNum (replica s))))) =
         fcard (fmdom (synchronousGroup (replica s)))"
      "s' = s\<lparr>replica := (replica s)\<lparr>executeSeqNum := executeSeqNum (replica s) + 1\<rparr>,
                preparing := preparing s - 1\<rparr>"
  | (commit) msg where
      "e = CallCommit msg"
      "verify lib (replica s) (ServerId msg) (MsgDigest msg) (Signature msg) = Inr True"
      "0 \<le> executeSeqNum (replica s)"
      "executeSeqNum (replica s) < int (length (commitLog (replica s)))"
      "s' = s\<lparr>replica := Commit_write (replica s) msg\<rparr>"
proof (cases e)
  case (CallReplicate request)
  with assms obtain xp' p where
    r: "Replicate lib (replica s) request ReplicateReply_zero = Inr (xp', p)"
    by (cases "Replicate lib (replica s) request ReplicateReply_zero") auto
  from r show thesis
  proof (cases rule: Replicate_cases)
    case not_leader
    with assms CallReplicate r have "s' = s" by simp
    then show thesis by (rule unchanged)
  next
    case (leader signature)
    with assms CallReplicate r have
      "s' = s\<lparr>replica := Replicate_write (replica s) request
                              (Replicate_msg lib (replica s) request signature),
                replicating := replicating s + 1\<rparr>" by simp
    with CallReplicate leader(1,2) show thesis by (intro replicate) simp_all
  qed
next
  case ResumeReplicate
  show thesis
  proof (cases "replicating s = 0")
    case True
    with assms ResumeReplicate have "s' = s" by simp
    then show thesis by (rule unchanged)
  next
    case False
    with assms ResumeReplicate have
      "s' = s\<lparr>replica := (replica s)\<lparr>executeSeqNum := executeSeqNum (replica s) + 1\<rparr>,
                replicating := replicating s - 1\<rparr>"
      by (simp add: Replicate_resume_def)
    with ResumeReplicate False show thesis by (intro replicated) simp_all
  qed
next
  case (CallPrepare prepareEntry)
  with assms obtain xp' p where
    r: "Prepare lib (replica s) prepareEntry PrepareReply_zero = Inr (xp', p)"
    by (cases "Prepare lib (replica s) prepareEntry PrepareReply_zero") auto
  from r show thesis
  proof (cases rule: Prepare_cases)
    case (rejected signature)
    with assms CallPrepare r have "s' = s" by simp
    then show thesis by (rule unchanged)
  next
    case (accepted signature)
    with assms CallPrepare r have
      "s' = s\<lparr>replica := Prepare_write (replica s) prepareEntry
                              (Prepare_msg lib (replica s) prepareEntry signature),
                preparing := preparing s + 1\<rparr>" by simp
    with CallPrepare accepted(1-4) show thesis by (intro prepare) simp_all
  qed
next
  case ResumePrepare
  show thesis
  proof (cases "preparing s = 0")
    case True
    with assms ResumePrepare have "s' = s" by simp
    then show thesis by (rule unchanged)
  next
    case False
    with assms ResumePrepare obtain xp' p where
      r: "Prepare_resume (replica s) PrepareReply_zero = Inr (xp', p)"
      by (cases "Prepare_resume (replica s) PrepareReply_zero") auto
    from r show thesis
    proof (cases rule: Prepare_resume_cases)
      case again
      with assms ResumePrepare False r have "s' = s" by simp
      then show thesis by (rule unchanged)
    next
      case executed
      with assms ResumePrepare False r have
        "s' = s\<lparr>replica := (replica s)\<lparr>executeSeqNum := executeSeqNum (replica s) + 1\<rparr>,
                preparing := preparing s - 1\<rparr>" by simp
      with ResumePrepare False executed(3-5) show thesis by (intro prepared) simp_all
    qed
  qed
next
  case (CallCommit msg)
  with assms obtain xp' reply' where
    r: "Commit lib (replica s) msg CommitReply_zero = Inr (xp', reply')"
    by (cases "Commit lib (replica s) msg CommitReply_zero") auto
  from r show thesis
  proof (cases rule: Commit_cases)
    case (written signature)
    with assms CallCommit r have "s' = s\<lparr>replica := Commit_write (replica s) msg\<rparr>" by simp
    with CallCommit written(2-4) show thesis by (rule commit)
  next
    case (no_slot signature)
    with assms CallCommit r have "s' = s" by simp
    then show thesis by (rule unchanged)
  next
    case (invalid signature)
    with assms CallCommit r have "s' = s" by simp
    then show thesis by (rule unchanged)
  qed
qed

lemma step_never_longer:
  assumes "step lib s e = Inr s'"
    and "length (commitLog (replica s)) \<le> length (prepareLog (replica s))"
  shows "length (commitLog (replica s')) \<le> length (prepareLog (replica s'))"
  using assms(1)
  by (cases rule: step_cases)
     (use assms(2) in \<open>simp_all add: Replicate_write_def Prepare_write_def Commit_write_fields\<close>)

lemma run_never_longer:
  assumes "run lib s es = Inr s'"
    and "length (commitLog (replica s)) \<le> length (prepareLog (replica s))"
  shows "length (commitLog (replica s')) \<le> length (prepareLog (replica s'))"
  using assms
proof (induction es arbitrary: s)
  case Nil
  then show ?case by simp
next
  case (Cons e es)
  from Cons.prems(1) obtain s1 where s1: "step lib s e = Inr s1" and r: "run lib s1 es = Inr s'"
    by (cases "step lib s e") simp_all
  from step_never_longer [OF s1 Cons.prems(2)] r show ?case
    by (rule Cons.IH [rotated])
qed

lemma step_balanced:
  assumes "step lib s e = Inr s'" and "balanced s"
    and "case e of CallReplicate request \<Rightarrow> idle s | CallPrepare prepareEntry \<Rightarrow> idle s | _ \<Rightarrow> True"
  shows "balanced s'"
  using assms(1)
proof (cases rule: step_cases)
  case unchanged
  with assms(2) show ?thesis by simp
next
  case (replicate request signature)
  with assms(2) show ?thesis by (simp add: balanced_def Replicate_write_def)
next
  case replicated
  with assms(2) show ?thesis by (simp add: balanced_def)
next
  case (prepare prepareEntry signature)
  with assms(3) have "idle s" by simp
  with assms(2) have "executeSeqNum (replica s) = int (length (commitLog (replica s)))"
    by (simp add: balanced_def idle_def)
  with prepare assms(2) show ?thesis by (simp add: balanced_def Prepare_write_def)
next
  case prepared
  with assms(2) show ?thesis by (simp add: balanced_def)
next
  case (commit msg)
  with assms(2) show ?thesis by (simp add: balanced_def Commit_write_fields)
qed

lemma run_balanced:
  assumes "run lib s es = Inr s'" and "sequential lib s es" and "balanced s"
  shows "balanced s'"
  using assms
proof (induction es arbitrary: s)
  case Nil
  then show ?case by simp
next
  case (Cons e es)
  from Cons.prems(1) obtain s1 where s1: "step lib s e = Inr s1" and r: "run lib s1 es = Inr s'"
    by (cases "step lib s e") simp_all
  from Cons.prems(2) s1 have
    c: "case e of CallReplicate request \<Rightarrow> idle s | CallPrepare prepareEntry \<Rightarrow> idle s | _ \<Rightarrow> True"
    and q: "sequential lib s1 es" by simp_all
  from step_balanced [OF s1 Cons.prems(3) c] have "balanced s1" .
  with r q show ?case by (rule Cons.IH)
qed

text \<open>
  C6, as amended.  In every replica state that a run of handler pieces reaches from
  the state \<^verbatim>\<open>Make\<close> builds, \<^verbatim>\<open>len(commitLog) \<le> len(prepareLog)\<close>: the commit log is
  never the longer one.  In normal operation, when \<^verbatim>\<open>Replicate\<close> and \<^verbatim>\<open>Prepare\<close>
  are invoked one at a time (none while an earlier one is still waiting), the two
  lengths are equal.
\<close>

theorem commitLog_never_longer:
  assumes "run lib (boot (Make replicas0 id0 privateKey0 publicKeys0)) es = Inr s"
  shows "length (commitLog (replica s)) \<le> length (prepareLog (replica s)) \<and>
         (sequential lib (boot (Make replicas0 id0 privateKey0 publicKeys0)) es \<longrightarrow>
            length (commitLog (replica s)) = length (prepareLog (replica s)))"
proof
  show "length (commitLog (replica s)) \<le> length (prepareLog (replica s))"
    by (rule run_never_longer [OF assms]) (simp add: boot_def Make_def)
next
  have b: "balanced (boot (Make replicas0 id0 privateKey0 publicKeys0))"
    by (simp add: balanced_def boot_def Make_def)
  show "sequential lib (boot (Make replicas0 id0 privateKey0 publicKeys0)) es \<longrightarrow>
            length (commitLog (replica s)) = length (prepareLog (replica s))"
  proof
    assume "sequential lib (boot (Make replicas0 id0 privateKey0 publicKeys0)) es"
    from run_balanced [OF assms this b] show
      "length (commitLog (replica s)) = length (prepareLog (replica s))"
      by (simp add: balanced_def)
  qed
qed

lemma leader1_one_eq:
  "run small_lib (boot leader1) one_request = Inr leader1_one"
  by (simp add: leader1_one_def one_request_def handler_defs small_defs)

lemma leader1_one_replica:
  "replica leader1_one =
     leader1AC\<lparr>executeSeqNum := 1\<rparr>"
  by (simp add: leader1_one_def one_request_def leader1AC_def leader1A_def handler_defs small_defs)

theorem commitLog_never_longer_witness:
  "run small_lib (boot (Make ends 1 (Some key1) directory)) one_request = Inr leader1_one \<and>
   sequential small_lib (boot (Make ends 1 (Some key1) directory)) one_request \<and>
   length (commitLog (replica leader1_one)) = length (prepareLog (replica leader1_one))"
proof -
  have r: "run small_lib (boot (Make ends 1 (Some key1) directory)) one_request = Inr leader1_one"
    using leader1_one_eq by (simp add: leader1_def)
  have q: "sequential small_lib (boot (Make ends 1 (Some key1) directory)) one_request"
    by (simp add: one_request_def idle_def handler_defs small_defs)
  from commitLog_never_longer [OF r] q
  have "length (commitLog (replica leader1_one)) = length (prepareLog (replica leader1_one))"
    by blast
  with r q show ?thesis by blast
qed

text \<open>
  C6, as stated, fails: \<^verbatim>\<open>len(commitLog) \<ge> len(prepareLog)\<close> is true in the state
  \<^verbatim>\<open>Make\<close> builds, where both logs are empty, and again after the leader has
  replicated one request, where both have one entry.
\<close>

theorem commitLog_as_long_as_prepareLog:
  "run small_lib (boot leader1) [] = Inr (boot leader1) \<and>
   length (commitLog (replica (boot leader1))) \<ge> length (prepareLog (replica (boot leader1))) \<and>
   run small_lib (boot leader1) one_request = Inr leader1_one \<and>
   length (commitLog (replica leader1_one)) \<ge> length (prepareLog (replica leader1_one))"
  using leader1_one_eq
  by (simp add: leader1_one_replica leader1AC_def leader1A_eq handler_defs small_defs)

text \<open>
  The inequality can be strict: replica 2 accepts \<open>prepareB\<close> while its handler for
  \<open>prepareA\<close> still waits, finds \<^verbatim>\<open>executeSeqNum < len(commitLog)\<close> and appends to
  \<^verbatim>\<open>prepareLog\<close> only.
\<close>

lemma commitLog_shorter_when_overlapping:
  "run small_lib (boot follower2) overlapping = Inr follower2_overlapping \<and>
   length (commitLog (replica follower2_overlapping)) = 1 \<and>
   length (prepareLog (replica follower2_overlapping)) = 2"
  by (simp add: follower2_overlapping_def overlapping_def prepareB_def handler_defs small_defs)

subsection \<open>Certificates of executed slots\<close>

lemma entry_valid_keys:
  "entry_valid lib xp m \<longleftrightarrow>
     (case publicKeys xp (ServerId m) of
        None \<Rightarrow> False
      | Some pub \<Rightarrow> rsa_VerifyPKCS1v15 lib pub SHA256 (MsgDigest m) (Signature m) = None)"
  by (simp add: entry_valid_def verify_def split: option.split)

lemma entry_valid_same:
  assumes "publicKeys xp' = publicKeys xp"
  shows "entry_valid lib xp' m = entry_valid lib xp m"
  using assms by (simp add: entry_valid_keys)

lemma certificates_valid_iff:
  "certificates_valid lib xp \<longleftrightarrow>
     (\<forall>slot \<in> set (commitLog xp). \<forall>server m.
        fmlookup (cle_Msg0 slot) server = Some m \<longrightarrow> entry_valid lib xp m)"
  by (simp add: certificates_valid_def list_all_iff fmpred_iff)

lemma step_same_setup:
  assumes "step lib s e = Inr s'"
  shows "same_setup (replica s) (replica s')"
  using assms
  by (cases rule: step_cases)
     (simp_all add: same_setup_def Replicate_write_def Prepare_write_def Commit_write_fields)

lemma step_certificates_valid:
  assumes "step lib s e = Inr s'" and "own_key_sound lib (replica s)"
    and "certificates_valid lib (replica s)"
  shows "certificates_valid lib (replica s')"
  using assms(1)
proof (cases rule: step_cases)
  case unchanged
  with assms(3) show ?thesis by simp
next
  case (replicate request signature)
  let ?msg = "Replicate_msg lib (replica s) request signature"
  have k: "publicKeys (replica s') = publicKeys (replica s)"
    using replicate(3) by (simp add: Replicate_write_def)
  have "entry_valid lib (replica s) ?msg"
    using assms(2) replicate(4)
    by (simp add: own_key_sound_def entry_valid_def Replicate_msg_def)
  with assms(3) have "\<forall>slot \<in> set (commitLog (replica s')). \<forall>server m.
        fmlookup (cle_Msg0 slot) server = Some m \<longrightarrow> entry_valid lib (replica s) m"
    using replicate(3)
    by (auto simp: certificates_valid_iff Replicate_write_def split: if_splits)
  then show ?thesis
    by (simp add: certificates_valid_iff entry_valid_same [OF k])
next
  case replicated
  with assms(3) show ?thesis
    by (simp add: certificates_valid_iff entry_valid_keys)
next
  case (prepare prepareEntry signature)
  let ?msg = "Prepare_msg lib (replica s) prepareEntry signature"
  have k: "publicKeys (replica s') = publicKeys (replica s)"
    using prepare(3) by (simp add: Prepare_write_def)
  have own: "entry_valid lib (replica s) ?msg"
    using assms(2) prepare(4)
    by (simp add: own_key_sound_def entry_valid_def Prepare_msg_def)
  have theirs: "entry_valid lib (replica s) (ple_Msg0 prepareEntry)"
    using prepare(5,6) by (simp add: entry_valid_def)
  from assms(3) own theirs have "\<forall>slot \<in> set (commitLog (replica s')). \<forall>server m.
        fmlookup (cle_Msg0 slot) server = Some m \<longrightarrow> entry_valid lib (replica s) m"
    using prepare(3)
    by (auto simp: certificates_valid_iff Prepare_write_def split: if_splits)
  then show ?thesis
    by (simp add: certificates_valid_iff entry_valid_same [OF k])
next
  case prepared
  with assms(3) show ?thesis
    by (simp add: certificates_valid_iff entry_valid_keys)
next
  case (commit msg)
  have k: "publicKeys (replica s') = publicKeys (replica s)"
    using commit(5) by (simp add: Commit_write_fields)
  have v: "entry_valid lib (replica s) msg"
    using commit(2) by (simp add: entry_valid_def)
  have "\<forall>server m. fmlookup (cle_Msg0 slot) server = Some m \<longrightarrow> entry_valid lib (replica s) m"
    if "slot \<in> set (commitLog (replica s'))" for slot
  proof -
    from that obtain j where j: "j < length (commitLog (replica s))"
      and slot: "slot = commitLog (replica s') ! j"
      using commit(5) by (auto simp: in_set_conv_nth Commit_write_fields)
    from j have old: "\<forall>server m. fmlookup (cle_Msg0 (commitLog (replica s) ! j)) server = Some m \<longrightarrow>
        entry_valid lib (replica s) m"
      using assms(3) nth_mem [OF j] unfolding certificates_valid_iff by blast
    from j slot commit(5) have "slot =
       (if j = nat (executeSeqNum (replica s))
        then (commitLog (replica s) ! j)\<lparr>cle_Msg0 :=
               fmupd (ServerId msg) msg (cle_Msg0 (commitLog (replica s) ! j))\<rparr>
        else commitLog (replica s) ! j)"
      by (simp add: Commit_write_nth)
    with old v show ?thesis by (auto split: if_splits)
  qed
  then show ?thesis
    by (simp add: certificates_valid_iff entry_valid_same [OF k])
qed

lemma executed_full_iff:
  "executed_full xp \<longleftrightarrow>
     0 \<le> executeSeqNum xp \<and> executeSeqNum xp \<le> int (length (commitLog xp)) \<and>
     (\<forall>k. int k < executeSeqNum xp \<longrightarrow>
        fcard (fmdom (cle_Msg0 (commitLog xp ! k))) = fcard (fmdom (synchronousGroup xp)))"
  by (auto simp: executed_full_def list_all_iff)

lemma step_executed_full:
  assumes "step lib s e = Inr s'" and "id' (replica s) \<noteq> view (replica s)"
    and "replicating s = 0" and "executed_full (replica s)"
  shows "executed_full (replica s') \<and> replicating s' = 0"
  using assms(1)
proof (cases rule: step_cases)
  case unchanged
  with assms(3,4) show ?thesis by simp
next
  case (replicate request signature)
  with assms(2) show ?thesis by simp
next
  case replicated
  with assms(3) show ?thesis by simp
next
  case (prepare prepareEntry signature)
  with assms(3,4) show ?thesis
    by (auto simp: executed_full_iff Prepare_write_def nth_append)
next
  case prepared
  have "fcard (fmdom (cle_Msg0 (commitLog (replica s) ! k))) =
          fcard (fmdom (synchronousGroup (replica s)))"
    if "int k < executeSeqNum (replica s) + 1" for k
  proof (cases "int k < executeSeqNum (replica s)")
    case True
    with assms(4) show ?thesis by (simp add: executed_full_iff)
  next
    case False
    with that prepared(3) have "k = nat (executeSeqNum (replica s))" by linarith
    with prepared(5) show ?thesis by simp
  qed
  with prepared assms(3,4) show ?thesis
    by (simp add: executed_full_iff)
next
  case (commit msg)
  have "commitLog (Commit_write (replica s) msg) ! k = commitLog (replica s) ! k"
    if "int k < executeSeqNum (replica s)" for k
    using that commit(4) by (simp add: Commit_write_nth)
  with commit assms(3,4) show ?thesis
    by (simp add: executed_full_iff Commit_write_fields)
qed

lemma keys_in_group_iff:
  "keys_in_group xp \<longleftrightarrow>
     (\<forall>slot \<in> set (commitLog xp). fmdom (cle_Msg0 slot) |\<subseteq>| fmdom (synchronousGroup xp))"
  by (simp add: keys_in_group_def list_all_iff)

lemma step_keys_in_group:
  assumes "step lib s e = Inr s'" and "setup_in_group (replica s)"
    and "keys_in_group (replica s)"
  shows "keys_in_group (replica s')"
  using assms(1)
proof (cases rule: step_cases)
  case unchanged
  with assms(3) show ?thesis by simp
next
  case (replicate request signature)
  with assms(2,3) show ?thesis
    by (auto simp: keys_in_group_iff setup_in_group_def Replicate_write_def)
next
  case replicated
  with assms(3) show ?thesis by (simp add: keys_in_group_iff)
next
  case (prepare prepareEntry signature)
  with assms(2,3) show ?thesis
    by (auto simp: keys_in_group_iff setup_in_group_def Prepare_write_def split: if_splits)
next
  case prepared
  with assms(3) show ?thesis by (simp add: keys_in_group_iff)
next
  case (commit msg)
  from commit(2) have "publicKeys (replica s) (ServerId msg) \<noteq> None"
    by (auto simp: verify_def split: option.splits)
  with assms(2) have m: "ServerId msg |\<in>| fmdom (synchronousGroup (replica s))"
    by (simp add: setup_in_group_def)
  have "fmdom (cle_Msg0 slot) |\<subseteq>| fmdom (synchronousGroup (replica s))"
    if "slot \<in> set (commitLog (replica s'))" for slot
  proof -
    from that obtain j where j: "j < length (commitLog (replica s))"
      and slot: "slot = commitLog (replica s') ! j"
      using commit(5) by (auto simp: in_set_conv_nth Commit_write_fields)
    from assms(3) nth_mem [OF j]
    have old: "fmdom (cle_Msg0 (commitLog (replica s) ! j)) |\<subseteq>| fmdom (synchronousGroup (replica s))"
      unfolding keys_in_group_iff by blast
    from j slot commit(5) have "slot =
       (if j = nat (executeSeqNum (replica s))
        then (commitLog (replica s) ! j)\<lparr>cle_Msg0 :=
               fmupd (ServerId msg) msg (cle_Msg0 (commitLog (replica s) ! j))\<rparr>
        else commitLog (replica s) ! j)"
      by (simp add: Commit_write_nth)
    with old m show ?thesis by (auto split: if_splits)
  qed
  with commit(5) show ?thesis
    by (simp add: keys_in_group_iff Commit_write_fields)
qed

lemma same_setup_trans:
  "same_setup xp0 xp \<Longrightarrow> same_setup xp xp' \<Longrightarrow> same_setup xp0 xp'"
  by (simp add: same_setup_def)

lemma same_setup_facts:
  assumes "same_setup xp0 xp"
  shows "own_key_sound lib xp = own_key_sound lib xp0"
    and "setup_in_group xp = setup_in_group xp0"
    and "(id' xp \<noteq> view xp) = (id' xp0 \<noteq> view xp0)"
  using assms
  by (simp_all add: same_setup_def own_key_sound_def setup_in_group_def sign_def verify_def)

lemma run_certificates:
  assumes "run lib s es = Inr s'" and "same_setup xp0 (replica s)"
    and "own_key_sound lib xp0" and "certificates_valid lib (replica s)"
  shows "same_setup xp0 (replica s') \<and> certificates_valid lib (replica s')"
  using assms(1,2,4)
proof (induction es arbitrary: s)
  case Nil
  then show ?case by simp
next
  case (Cons e es)
  from Cons.prems(1) obtain s1 where s1: "step lib s e = Inr s1" and r: "run lib s1 es = Inr s'"
    by (cases "step lib s e") simp_all
  from Cons.prems(2) assms(3) have o: "own_key_sound lib (replica s)"
    by (simp add: same_setup_facts)
  from same_setup_trans [OF Cons.prems(2) step_same_setup [OF s1]]
  have a: "same_setup xp0 (replica s1)" .
  from step_certificates_valid [OF s1 o Cons.prems(3)]
  have b: "certificates_valid lib (replica s1)" .
  from r a b show ?case by (rule Cons.IH)
qed

lemma run_follower:
  assumes "run lib s es = Inr s'" and "same_setup xp0 (replica s)"
    and "id' xp0 \<noteq> view xp0" and "replicating s = 0" and "executed_full (replica s)"
  shows "executed_full (replica s')"
  using assms(1,2,4,5)
proof (induction es arbitrary: s)
  case Nil
  then show ?case by simp
next
  case (Cons e es)
  from Cons.prems(1) obtain s1 where s1: "step lib s e = Inr s1" and r: "run lib s1 es = Inr s'"
    by (cases "step lib s e") simp_all
  from Cons.prems(2) assms(3) have f: "id' (replica s) \<noteq> view (replica s)"
    by (simp add: same_setup_facts)
  from same_setup_trans [OF Cons.prems(2) step_same_setup [OF s1]]
  have a: "same_setup xp0 (replica s1)" .
  from step_executed_full [OF s1 f Cons.prems(3,4)]
  have b: "replicating s1 = 0" "executed_full (replica s1)" by simp_all
  from r a b show ?case by (rule Cons.IH)
qed

lemma run_keys_in_group:
  assumes "run lib s es = Inr s'" and "same_setup xp0 (replica s)"
    and "setup_in_group xp0" and "keys_in_group (replica s)"
  shows "keys_in_group (replica s')"
  using assms(1,2,4)
proof (induction es arbitrary: s)
  case Nil
  then show ?case by simp
next
  case (Cons e es)
  from Cons.prems(1) obtain s1 where s1: "step lib s e = Inr s1" and r: "run lib s1 es = Inr s'"
    by (cases "step lib s e") simp_all
  from Cons.prems(2) assms(3) have g: "setup_in_group (replica s)"
    by (simp add: same_setup_facts)
  from same_setup_trans [OF Cons.prems(2) step_same_setup [OF s1]]
  have a: "same_setup xp0 (replica s1)" .
  from step_keys_in_group [OF s1 g Cons.prems(3)]
  have b: "keys_in_group (replica s1)" .
  from r a b show ?case by (rule Cons.IH)
qed

text \<open>
  What does hold of certificates.  On a replica whose own key is sound, every entry
  that the handlers store in a certificate is valid under the key of its
  \<^verbatim>\<open>ServerId\<close>, in every slot and on leader and follower alike: \<^verbatim>\<open>Commit\<close> and
  \<^verbatim>\<open>Prepare\<close> store what they have verified, and the replica's own message carries
  its own signature.
\<close>

lemma stored_entries_valid:
  assumes "run lib (boot (Make replicas0 id0 privateKey0 publicKeys0)) es = Inr s"
    and "own_key_sound lib (Make replicas0 id0 privateKey0 publicKeys0)"
  shows "certificates_valid lib (replica s)"
proof -
  let ?xp0 = "Make replicas0 id0 privateKey0 publicKeys0"
  have "same_setup ?xp0 (replica (boot ?xp0))" "certificates_valid lib (replica (boot ?xp0))"
    by (simp_all add: same_setup_def boot_def certificates_valid_def Make_def)
  from run_certificates [OF assms(1) this(1) assms(2) this(2)] show ?thesis by simp
qed

text \<open>
  On a replica that is not the leader, slots are executed by \<^verbatim>\<open>Prepare\<close> only, so
  every slot below \<^verbatim>\<open>executeSeqNum\<close> exists and holds as many entries as the group
  has members; when the setup is within the group the entries are those of the
  members.
\<close>

lemma follower_executed_slots:
  assumes "run lib (boot (Make replicas0 id0 privateKey0 publicKeys0)) es = Inr s"
    and "id0 \<noteq> 1"
  shows "executed_full (replica s)"
    and "setup_in_group (Make replicas0 id0 privateKey0 publicKeys0) \<Longrightarrow>
         int k < executeSeqNum (replica s) \<Longrightarrow>
         fmdom (cle_Msg0 (commitLog (replica s) ! k)) = fmdom (synchronousGroup (replica s))"
proof -
  let ?xp0 = "Make replicas0 id0 privateKey0 publicKeys0"
  have i: "same_setup ?xp0 (replica (boot ?xp0))" "id' ?xp0 \<noteq> view ?xp0"
    "replicating (boot ?xp0) = 0" "executed_full (replica (boot ?xp0))"
    "keys_in_group (replica (boot ?xp0))"
    using assms(2)
    by (simp_all add: same_setup_def boot_def executed_full_def keys_in_group_def Make_def)
  from run_follower [OF assms(1) i(1-4)] show f: "executed_full (replica s)" .
  assume g: "setup_in_group ?xp0" and k: "int k < executeSeqNum (replica s)"
  from run_keys_in_group [OF assms(1) i(1) g i(5)] have "keys_in_group (replica s)" .
  moreover from f k have "k < length (commitLog (replica s))"
    by (simp add: executed_full_iff)
  ultimately have "fmdom (cle_Msg0 (commitLog (replica s) ! k)) |\<subseteq>|
      fmdom (synchronousGroup (replica s))"
    unfolding keys_in_group_iff using nth_mem by blast
  moreover from f k have "fcard (fmdom (cle_Msg0 (commitLog (replica s) ! k))) =
      fcard (fmdom (synchronousGroup (replica s)))"
    by (simp add: executed_full_iff)
  ultimately show "fmdom (cle_Msg0 (commitLog (replica s) ! k)) = fmdom (synchronousGroup (replica s))"
    by (simp add: fcard_seteq)
qed

lemma leader1_pipelined_eq:
  "run small_lib (boot leader1) pipelined = Inr leader1_pipelined"
  by (simp add: leader1_pipelined_def pipelined_def handler_defs small_defs)

text \<open>
  C1.  The leader's \<^verbatim>\<open>Replicate\<close> increments \<^verbatim>\<open>executeSeqNum\<close> as soon as its
  acknowledgements are in; unlike \<^verbatim>\<open>Prepare\<close> it never looks at the certificate of
  the slot.  In the run \<open>pipelined\<close> the leader of the group \<open>{1, 2}\<close> ends with
  \<^verbatim>\<open>executeSeqNum = 2\<close> although the certificate of slot 1 holds the leader's own
  entry only: replica 2 is a member of the group and has no entry there, because
  \<^verbatim>\<open>Commit\<close> wrote both of its COMMITs into slot 0, the slot at the execution
  frontier when they arrived.
\<close>

theorem Replicate_executes_incomplete_certificate:
  "run small_lib (boot leader1) pipelined = Inr leader1_pipelined \<and>
   executeSeqNum (replica leader1_pipelined) = 2 \<and>
   2 |\<in>| fmdom (synchronousGroup (replica leader1_pipelined)) \<and>
   2 |\<notin>| fmdom (cle_Msg0 (commitLog (replica leader1_pipelined) ! 1)) \<and>
   fmdom (cle_Msg0 (commitLog (replica leader1_pipelined) ! 1)) = {|1|}"
  using leader1_pipelined_eq
  by (simp add: leader1_pipelined_def pipelined_def handler_defs small_defs)

text \<open>
  The messages of \<open>pipelined\<close> are the ones the two replicas produce: \<open>prepareA\<close> and
  \<open>prepareB\<close> are what the leader's two \<^verbatim>\<open>Replicate\<close> invocations fan out, and
  replica 2, handling them in turn, fans out \<open>commitA\<close> and \<open>commitB\<close> and answers
  both PREPAREs with success.
\<close>

lemma pipelined_is_genuine:
  "Replicate small_lib leader1 requestA ReplicateReply_zero =
     Inr (leader1A, Await prepareA \<lparr>IsLeader = True, Success = False\<rparr>)"
  "\<exists>xp. Replicate small_lib leader1A requestB ReplicateReply_zero =
     Inr (xp, Await prepareB \<lparr>IsLeader = True, Success = False\<rparr>)"
  "Prepare small_lib follower2 prepareA PrepareReply_zero =
     Inr (follower2A, Await commitA \<lparr>pr_MsgDigest = [1], pr_Signature = [13, 1], pr_Success = False\<rparr>)"
  "Prepare_resume follower2A \<lparr>pr_MsgDigest = [1], pr_Signature = [13, 1], pr_Success = False\<rparr> =
     Inr (follower2A\<lparr>executeSeqNum := 1\<rparr>,
          Return \<lparr>pr_MsgDigest = [1], pr_Signature = [13, 1], pr_Success = True\<rparr>)"
  "\<exists>xp. Prepare small_lib (follower2A\<lparr>executeSeqNum := 1\<rparr>) prepareB PrepareReply_zero =
     Inr (xp, Await commitB \<lparr>pr_MsgDigest = [2], pr_Signature = [13, 2], pr_Success = False\<rparr>) \<and>
     Prepare_resume xp \<lparr>pr_MsgDigest = [2], pr_Signature = [13, 2], pr_Success = False\<rparr> =
     Inr (xp\<lparr>executeSeqNum := 2\<rparr>,
          Return \<lparr>pr_MsgDigest = [2], pr_Signature = [13, 2], pr_Success = True\<rparr>)"
  by (simp_all add: leader1A_eq follower2A_def prepareB_def handler_defs small_defs fcard_finsert_if)

lemma in_turn_executes_both:
  "\<not> isl (run small_lib (boot follower2) in_turn) \<and>
   executeSeqNum (replica (projr (run small_lib (boot follower2) in_turn))) = 2 \<and>
   preparing (projr (run small_lib (boot follower2) in_turn)) = 0"
  by (simp add: in_turn_def prepareB_def handler_defs small_defs fcard_finsert_if)

end
